theory Spec2Isabelle
  imports Complex_Main
begin

section \<open>Exceptions as values\<close>

text \<open>
  Neither script defines an exception class or a handler. The exceptions that the code
  itself can provoke are Python's built-in ones (\<open>FileNotFoundError\<close> is that of \<open>open\<close>
  on a path that does not exist); everything raised inside an external
  library (the LHE reader, the vector classes, the NanoAOD event object) is kept as an
  opaque \<open>LibraryError\<close> carrying the library's message.
\<close>

datatype error = AttributeError | IndexError | KeyError | FileNotFoundError | LibraryError string

definition ebind :: "error + 'a \<Rightarrow> ('a \<Rightarrow> error + 'b) \<Rightarrow> error + 'b" where
  "ebind m f = (case m of Inl e \<Rightarrow> Inl e | Inr x \<Rightarrow> f x)"

section \<open>lhePlot.py: the event record and the vector library\<close>

text \<open>
  An LHE particle as \<open>lhereader\<close> hands it over, with the fields the script reads
  (\<open>pdgid\<close>, \<open>status\<close>) and the momentum components its \<open>p4()\<close> is built from.
\<close>

record particle =
  pdgid :: int
  status :: int
  px :: real
  py :: real
  pz :: real
  energy :: real

record event =
  particles :: "particle list"
  weights :: "real list"

text \<open>
  The four-vector class is not part of the repository. The script uses six of its
  operations; they are parameters of the model. \<open>p4\<close> is \<open>Particle.p4()\<close>, \<open>vadd\<close> is
  \<open>+\<close> and \<open>+=\<close>, \<open>pt\<close> and \<open>mass\<close> are the properties of these names, and \<open>eta\<close> and
  \<open>deltar\<close> may raise inside the library (a vector along the beam axis has no finite
  pseudorapidity). A vector object is truthy, so \<open>if v_p4:\<close> tests for \<open>None\<close>.
\<close>

record 'v veclib =
  p4 :: "particle \<Rightarrow> 'v"
  vadd :: "'v \<Rightarrow> 'v \<Rightarrow> 'v"
  pt :: "'v \<Rightarrow> real"
  mass :: "'v \<Rightarrow> real"
  eta :: "'v \<Rightarrow> error + real"
  deltar :: "'v \<Rightarrow> 'v \<Rightarrow> error + real"

text \<open>
  What iterating over the \<open>LHEReader\<close> yields: each step either delivers an event or
  raises inside the reader (a malformed or missing file).
\<close>

type_synonym reader = "(error + event) list"

section \<open>lhePlot.py: histograms\<close>

text \<open>
  A weighted histogram is its bin edges together with the sequence of \<open>fill(x, weight=w)\<close>
  calls it has received; the library's bin contents (sum of weights and of squared
  weights per bin) are a function of that sequence.
\<close>

record hist =
  edges :: "real list"
  entries :: "(real \<times> real) list"

type_synonym histograms = "(string \<times> hist) list"

definition linspace :: "real \<Rightarrow> real \<Rightarrow> nat \<Rightarrow> real list" where
  "linspace a b n = map (\<lambda>i. a + real i * ((b - a) / real (n - 1))) [0..<n]"

definition bins :: "(string \<times> real list) list" where
  "bins =
    [(''wei'', linspace (-50) 50 100),
     (''nlep'', linspace 0 6 6),
     (''lep_eta'', linspace (-5) 5 50),
     (''lep_pt'', linspace 0 500 50),
     (''dilep_m'', linspace 50 120 50),
     (''dilep_pt'', linspace 0 600 100),
     (''z_mass'', linspace 50 120 50),
     (''z_pt'', linspace 0 600 100),
     (''njet'', linspace 0 6 6),
     (''njet15'', linspace 0 6 6),
     (''jet_eta'', linspace (-5) 5 50),
     (''jet_pt'', linspace 0 500 50),
     (''jets_ht'', linspace 0 500 50),
     (''dijet_m'', linspace 0 1200 50),
     (''dijet_pt'', linspace 0 600 100),
     (''dijet_dr'', linspace 0 5 50)]"

definition setup_histograms :: histograms where
  "setup_histograms =
     map (\<lambda>(observable, binning). (observable, \<lparr>edges = binning, entries = []\<rparr>)) bins"

definition keys :: "histograms \<Rightarrow> string list" where
  "keys h = map fst h"

text \<open>
  \<open>histograms[name].fill(x, weight=w)\<close>: the subscript is evaluated first and raises
  \<open>KeyError\<close> for an absent name, then the argument \<open>x\<close> (which may raise), then the
  histogram under \<open>name\<close> records the call. Nothing is ever inserted.
\<close>

definition fill :: "string \<Rightarrow> error + real \<Rightarrow> real \<Rightarrow> histograms \<Rightarrow> error + histograms" where
  "fill name arg w h =
     (if name \<in> set (keys h)
      then ebind arg (\<lambda>x.
        Inr (map (\<lambda>(k, hg). if k = name then (k, hg\<lparr>entries := entries hg @ [(x, w)]\<rparr>)
                                else (k, hg)) h))
      else Inl KeyError)"

definition entries_of :: "histograms \<Rightarrow> string \<Rightarrow> (real \<times> real) list" where
  "entries_of h name = (case map_of h name of None \<Rightarrow> [] | Some hg \<Rightarrow> entries hg)"

section \<open>lhePlot.py: analyze\<close>

definition leptons :: "event \<Rightarrow> particle list" where
  "leptons ev = filter (\<lambda>x. \<bar>pdgid x\<bar> \<in> set [11, 13, 15]) (particles ev)"

definition Zs :: "event \<Rightarrow> particle list" where
  "Zs ev = filter (\<lambda>x. pdgid x = 23) (particles ev)"

definition jets :: "event \<Rightarrow> particle list" where
  "jets ev =
     filter (\<lambda>x. \<bar>pdgid x\<bar> \<in> set [1, 2, 3, 4, 5, 21] \<and> status x = 1) (particles ev)"

definition jets15 :: "'v veclib \<Rightarrow> event \<Rightarrow> particle list" where
  "jets15 L ev =
     filter (\<lambda>x. \<bar>pdgid x\<bar> \<in> set [1, 2, 3, 4, 5, 21] \<and> status x = 1 \<and> pt L (p4 L x) > 15)
       (particles ev)"

text \<open>Lines 114-120: the accumulation of \<open>v_p4\<close> over the leptons, soft ones skipped.\<close>

fun lepton_loop :: "'v veclib \<Rightarrow> 'v option \<Rightarrow> particle list \<Rightarrow> 'v option" where
  "lepton_loop L v_p4 [] = v_p4"
| "lepton_loop L v_p4 (l # ls) =
     (if pt L (p4 L l) < 1 then lepton_loop L v_p4 ls
      else (case v_p4 of
              Some v \<Rightarrow> lepton_loop L (Some (vadd L v (p4 L l))) ls
            | None \<Rightarrow> lepton_loop L (Some (p4 L l)) ls))"

text \<open>Lines 138-141.\<close>

fun fill_leptons :: "'v veclib \<Rightarrow> real \<Rightarrow> histograms \<Rightarrow> particle list \<Rightarrow> error + histograms" where
  "fill_leptons L wei h [] = Inr h"
| "fill_leptons L wei h (l # ls) =
     (case fill ''lep_eta'' (eta L (p4 L l)) wei h of Inl e \<Rightarrow> Inl e | Inr h1 \<Rightarrow>
      case fill ''lep_pt'' (Inr (pt L (p4 L l))) wei h1 of Inl e \<Rightarrow> Inl e | Inr h2 \<Rightarrow>
      fill_leptons L wei h2 ls)"

text \<open>Lines 144-149.\<close>

fun fill_Zs :: "'v veclib \<Rightarrow> real \<Rightarrow> histograms \<Rightarrow> particle list \<Rightarrow> error + histograms" where
  "fill_Zs L wei h [] = Inr h"
| "fill_Zs L wei h (Z # Zs') =
     (let zpt = pt L (p4 L Z); zmass = mass L (p4 L Z) in
      case fill ''z_mass'' (Inr zmass) wei h of Inl e \<Rightarrow> Inl e | Inr h1 \<Rightarrow>
      case fill ''z_pt'' (Inr zpt) wei h1 of Inl e \<Rightarrow> Inl e | Inr h2 \<Rightarrow>
      fill_Zs L wei h2 Zs')"

text \<open>Lines 152-159: the jet loop fills per jet and accumulates \<open>j_p4\<close>, starting from \<open>None\<close>.\<close>

fun jet_loop ::
  "'v veclib \<Rightarrow> real \<Rightarrow> histograms \<Rightarrow> 'v option \<Rightarrow> particle list \<Rightarrow> error + (histograms \<times> 'v option)"
where
  "jet_loop L wei h j_p4 [] = Inr (h, j_p4)"
| "jet_loop L wei h j_p4 (j # js) =
     (case fill ''jet_eta'' (eta L (p4 L j)) wei h of Inl e \<Rightarrow> Inl e | Inr h1 \<Rightarrow>
      case fill ''jet_pt'' (Inr (pt L (p4 L j))) wei h1 of Inl e \<Rightarrow> Inl e | Inr h2 \<Rightarrow>
      jet_loop L wei h2
        (case j_p4 of Some v \<Rightarrow> Some (vadd L v (p4 L j)) | None \<Rightarrow> Some (p4 L j)) js)"

text \<open>Lines 164-173.\<close>

definition fill_dijet :: "'v veclib \<Rightarrow> real \<Rightarrow> histograms \<Rightarrow> particle list \<Rightarrow> error + histograms" where
  "fill_dijet L wei h js15 =
     (if length js15 \<ge> 2 then
        (let j1 = p4 L (js15 ! 0); j2 = p4 L (js15 ! 1) in
         ebind (deltar L j1 j2) (\<lambda>dijet_dr.
         let dijet_pt = pt L (vadd L j1 j2); dijet_mass = mass L (vadd L j1 j2) in
         ebind (fill ''dijet_dr'' (Inr dijet_dr) wei h) (\<lambda>h1.
         ebind (fill ''dijet_m'' (Inr dijet_mass) wei h1) (\<lambda>h2.
         fill ''dijet_pt'' (Inr dijet_pt) wei h2))))
      else Inr h)"

text \<open>
  Lines 133-173: the fills of an event that passed the dilepton cuts. \<open>j_p4.pt\<close> on
  \<open>None\<close> raises \<open>AttributeError\<close>, after the subscript \<open>histograms['jets_ht']\<close>.
\<close>

definition fill_selected ::
  "'v veclib \<Rightarrow> real \<Rightarrow> real \<Rightarrow> real \<Rightarrow> histograms \<Rightarrow> event \<Rightarrow> error + histograms"
where
  "fill_selected L wei vpt vmass h ev =
     ebind (fill ''wei'' (Inr wei) 1 h) (\<lambda>h4.
     ebind (fill ''dilep_m'' (Inr vmass) wei h4) (\<lambda>h5.
     ebind (fill ''dilep_pt'' (Inr vpt) wei h5) (\<lambda>h6.
     ebind (fill_leptons L wei h6 (leptons ev)) (\<lambda>h7.
     ebind (fill_Zs L wei h7 (Zs ev)) (\<lambda>h8.
     ebind (jet_loop L wei h8 None (jets ev)) (\<lambda>(h9, j_p4).
     ebind (fill ''jets_ht''
              (case j_p4 of None \<Rightarrow> Inl AttributeError | Some v \<Rightarrow> Inr (pt L v))
              wei h9) (\<lambda>h10.
     fill_dijet L wei h10 (jets15 L ev))))))))"

text \<open>
  The body of the event loop, lines 97-173. \<open>continue\<close> returns the histograms as they
  are; \<open>v_p4.pt\<close> on \<open>None\<close> raises \<open>AttributeError\<close>, \<open>event.weights[0]\<close> on an empty
  list raises \<open>IndexError\<close>.
\<close>

definition analyze_event :: "'v veclib \<Rightarrow> histograms \<Rightarrow> event \<Rightarrow> error + histograms" where
  "analyze_event L h ev =
     (let nlep = length (leptons ev);
          njet = length (jets ev);
          njet15 = length (jets15 L ev) in
      ebind (fill ''nlep'' (Inr (real nlep)) 1 h) (\<lambda>h1.
      ebind (fill ''njet'' (Inr (real njet)) 1 h1) (\<lambda>h2.
      ebind (fill ''njet15'' (Inr (real njet15)) 1 h2) (\<lambda>h3.
      if nlep \<noteq> 2 then Inr h3
      else
        (case lepton_loop L None (leptons ev) of
           None \<Rightarrow> Inl AttributeError
         | Some v_p4 \<Rightarrow>
            (let vpt = pt L v_p4; vmass = mass L v_p4 in
             if vpt < 250 \<or> vpt > 400 then Inr h3
             else if vmass < 50 \<or> vmass > 130 then Inr h3
             else
               (case weights ev of
                  [] \<Rightarrow> Inl IndexError
                | wei # _ \<Rightarrow> fill_selected L wei vpt vmass h3 ev)))))))"

text \<open>The loop \<open>for event in reader\<close>: an exception of the reader or of the body ends it.\<close>

fun event_loop :: "'v veclib \<Rightarrow> histograms \<Rightarrow> reader \<Rightarrow> error + histograms" where
  "event_loop L h [] = Inr h"
| "event_loop L h (item # rest) =
     (case item of
        Inl e \<Rightarrow> Inl e
      | Inr ev \<Rightarrow>
         (case analyze_event L h ev of
            Inl e \<Rightarrow> Inl e
          | Inr h' \<Rightarrow> event_loop L h' rest))"

definition analyze :: "'v veclib \<Rightarrow> reader \<Rightarrow> error + histograms" where
  "analyze L rd = event_loop L setup_histograms rd"

section \<open>lhePlot.py: the dilepton selection in the words of the specification\<close>

text \<open>
  The events a reader delivers, in order.
\<close>

definition reader_events :: "reader \<Rightarrow> event list" where
  "reader_events rd = concat (map (\<lambda>item. case item of Inl e \<Rightarrow> [] | Inr ev \<Rightarrow> [ev]) rd)"

text \<open>
  The four-momentum sum of a list of particles; an empty list has no sum. The dilepton
  candidate is the sum over the charged leptons with \<open>pt \<ge> 1\<close>; an event is selected when it
  has exactly two charged leptons and the candidate lies in the pt window \<open>[250, 400]\<close> and
  the mass window \<open>[50, 130]\<close>. A selected event contributes one fill, of the observable
  \<open>obs\<close> of the candidate, weighted with the first event weight.
\<close>

definition p4_sum :: "'v veclib \<Rightarrow> particle list \<Rightarrow> 'v option" where
  "p4_sum L ps =
     (case ps of [] \<Rightarrow> None | l # ls \<Rightarrow> Some (foldl (vadd L) (p4 L l) (map (p4 L) ls)))"

definition dilepton_p4 :: "'v veclib \<Rightarrow> event \<Rightarrow> 'v option" where
  "dilepton_p4 L ev = p4_sum L (filter (\<lambda>l. pt L (p4 L l) \<ge> 1) (leptons ev))"

definition dilepton_selected :: "'v veclib \<Rightarrow> event \<Rightarrow> bool" where
  "dilepton_selected L ev \<longleftrightarrow>
     length (leptons ev) = 2 \<and>
     (case dilepton_p4 L ev of
        None \<Rightarrow> False
      | Some v \<Rightarrow> 250 \<le> pt L v \<and> pt L v \<le> 400 \<and> 50 \<le> mass L v \<and> mass L v \<le> 130)"

definition dilepton_fills :: "'v veclib \<Rightarrow> ('v \<Rightarrow> real) \<Rightarrow> event \<Rightarrow> (real \<times> real) list" where
  "dilepton_fills L obs ev =
     (if dilepton_selected L ev
      then (case (dilepton_p4 L ev, weights ev) of
              (Some v, w # ws) \<Rightarrow> [(obs v, w)]
            | _ \<Rightarrow> [])
      else [])"

text \<open>
  The events on which the body of the loop does not raise, once the sixteen histograms
  exist: with two leptons at least one of them is not soft, and a selected event has a
  weight, a parton jet, and pseudorapidities and a jet separation that the vector library
  can compute.
\<close>

definition observables_present :: "histograms \<Rightarrow> bool" where
  "observables_present h \<longleftrightarrow> set (map fst bins) \<subseteq> set (keys h)"

definition selected_ok :: "'v veclib \<Rightarrow> event \<Rightarrow> bool" where
  "selected_ok L ev \<longleftrightarrow>
     list_all (\<lambda>l. \<not> isl (eta L (p4 L l))) (leptons ev) \<and>
     list_all (\<lambda>j. \<not> isl (eta L (p4 L j))) (jets ev) \<and>
     jets ev \<noteq> [] \<and>
     (if 2 \<le> length (jets15 L ev)
      then \<not> isl (deltar L (p4 L (jets15 L ev ! 0)) (p4 L (jets15 L ev ! 1)))
      else True)"

definition event_ok :: "'v veclib \<Rightarrow> event \<Rightarrow> bool" where
  "event_ok L ev \<longleftrightarrow>
     (if length (leptons ev) \<noteq> 2 then True
      else (case dilepton_p4 L ev of
              None \<Rightarrow> False
            | Some v \<Rightarrow>
               if dilepton_selected L ev then weights ev \<noteq> [] \<and> selected_ok L ev else True))"

text \<open>
  Invariant of a result: if the operation returned histograms, their keys are \<open>K\<close>.
\<close>

definition keeps :: "string list \<Rightarrow> error + histograms \<Rightarrow> bool" where
  "keeps K r = (case r of Inl e \<Rightarrow> True | Inr h' \<Rightarrow> keys h' = K)"

section \<open>A reference vector library and concrete events\<close>

text \<open>
  Cartesian four-vectors with the textbook formulas, to run the model on concrete
  events: transverse momentum \<open>sqrt (x\<^sup>2 + y\<^sup>2)\<close>, signed invariant mass, pseudorapidity
  \<open>arsinh (z / pt)\<close>, which does not exist on the beam axis, and \<open>\<Delta>R\<close> from the
  pseudorapidity difference and the azimuthal angle between the transverse momenta.
\<close>

definition cartesian :: "(real \<times> real \<times> real \<times> real) veclib" where
  "cartesian =
     \<lparr>p4 = (\<lambda>p. (px p, py p, pz p, energy p)),
      vadd = (\<lambda>(x1, y1, z1, t1) (x2, y2, z2, t2). (x1 + x2, y1 + y2, z1 + z2, t1 + t2)),
      pt = (\<lambda>(x, y, z, t). sqrt (x * x + y * y)),
      mass = (\<lambda>(x, y, z, t).
                let m2 = t * t - (x * x + y * y + z * z)
                in if 0 \<le> m2 then sqrt m2 else - sqrt (- m2)),
      eta = (\<lambda>(x, y, z, t).
                if x = 0 \<and> y = 0 then Inl (LibraryError ''math domain error'')
                else Inr (arsinh (z / sqrt (x * x + y * y)))),
      deltar = (\<lambda>(x1, y1, z1, t1) (x2, y2, z2, t2).
                if (x1 = 0 \<and> y1 = 0) \<or> (x2 = 0 \<and> y2 = 0)
                then Inl (LibraryError ''math domain error'')
                else
                  (let pt1 = sqrt (x1 * x1 + y1 * y1); pt2 = sqrt (x2 * x2 + y2 * y2);
                       deta = arsinh (z1 / pt1) - arsinh (z2 / pt2);
                       dphi = arccos ((x1 * x2 + y1 * y2) / (pt1 * pt2))
                   in Inr (sqrt (deta * deta + dphi * dphi))))\<rparr>"

text \<open>
  A Z boson of mass 125 and transverse momentum 300 decaying to two massless muons,
  recoiling against one gluon; and the same event without the gluon.
\<close>

definition mu_plus :: particle where
  "mu_plus = \<lparr>pdgid = - 13, status = 1, px = 150, py = 0, pz = 125 / 2, energy = 325 / 2\<rparr>"

definition mu_minus :: particle where
  "mu_minus = \<lparr>pdgid = 13, status = 1, px = 150, py = 0, pz = - (125 / 2), energy = 325 / 2\<rparr>"

definition gluon :: particle where
  "gluon = \<lparr>pdgid = 21, status = 1, px = - 300, py = 0, pz = 0, energy = 300\<rparr>"

definition zjet_event :: event where
  "zjet_event = \<lparr>particles = [mu_plus, mu_minus, gluon], weights = [2]\<rparr>"

definition z_event :: event where
  "z_event = \<lparr>particles = [mu_plus, mu_minus], weights = [2]\<rparr>"

section \<open>vplusjetPDFsyst.py: NanoAOD events and the libraries\<close>

text \<open>
  The objects of a NanoAOD event, with the branches the script reads.
\<close>

record muon =
  Muon_pt :: real
  Muon_eta :: real
  Muon_phi :: real
  Muon_mass :: real
  Muon_charge :: int
  Muon_pfRelIso04_all :: real
  Muon_looseId :: bool
  Muon_dxy :: real
  Muon_dz :: real

record electron =
  Electron_pt :: real
  Electron_eta :: real
  Electron_phi :: real
  Electron_mass :: real
  Electron_dxy :: real
  Electron_dz :: real
  Electron_lostHits :: int
  Electron_miniPFRelIso_all :: real
  Electron_mvaFall17V2noIso :: real

record jet =
  Jet_pt :: real
  Jet_eta :: real
  Jet_phi :: real
  Jet_mass :: real
  Jet_isTight :: bool

record nano_event =
  genWeight :: real
  LHE_Vpt :: real
  LHEPdfWeight :: "real list"
  Muon :: "muon list"
  Electron :: "electron list"
  MET_pt :: real
  Jet :: "jet list"

text \<open>
  A chunk of events as the job framework passes it to \<open>process\<close>: the metadata
  dictionary, the events, and the collections whose access raises (a branch the file
  does not have, a read that fails), each with the exception the event object raises.
  A collection stands for its fields as well: the script reads them where it reads the
  collection.
\<close>

record chunk =
  metadata :: "(string \<times> string) list"
  unreadable :: "(string \<times> error) list"
  rows :: "nano_event list"

definition metadata_get :: "chunk \<Rightarrow> string \<Rightarrow> error + string" where
  "metadata_get events k = (case map_of (metadata events) k of None \<Rightarrow> Inl KeyError | Some v \<Rightarrow> Inr v)"

definition branch :: "chunk \<Rightarrow> string \<Rightarrow> 'a \<Rightarrow> error + 'a" where
  "branch events name column =
     (case map_of (unreadable events) name of Some e \<Rightarrow> Inl e | None \<Rightarrow> Inr column)"

text \<open>
  The vector methods of the NanoAOD objects are not part of the repository; the script
  uses the invariant mass and transverse momentum of the sum of two muons and of two
  jets, and \<open>delta_r\<close> between a jet and a jet, an electron or a muon. They are
  parameters of the model.
\<close>

record kinlib =
  mumu_mass :: "muon \<Rightarrow> muon \<Rightarrow> real"
  mumu_pt :: "muon \<Rightarrow> muon \<Rightarrow> real"
  jj_mass :: "jet \<Rightarrow> jet \<Rightarrow> real"
  jj_pt :: "jet \<Rightarrow> jet \<Rightarrow> real"
  jj_delta_r :: "jet \<Rightarrow> jet \<Rightarrow> real"
  je_delta_r :: "jet \<Rightarrow> electron \<Rightarrow> real"
  jm_delta_r :: "jet \<Rightarrow> muon \<Rightarrow> real"

subsection \<open>Jagged arrays\<close>

text \<open>
  A column holds one entry per event; a jagged column holds a list per event. The
  operations of \<open>awkward\<close> that the script uses: an elementwise function, \<open>array[mask]\<close> on
  a jagged and on a flat column, \<open>ak.num\<close>, \<open>ak.sum(mask, axis=1)\<close>, \<open>ak.firsts\<close>,
  \<open>ak.flatten\<close> and \<open>ak.combinations(array, 2)\<close>.
\<close>

definition jmap :: "('a \<Rightarrow> 'b) \<Rightarrow> 'a list list \<Rightarrow> 'b list list" where
  "jmap f xss = map (map f) xss"

definition jand :: "bool list list \<Rightarrow> bool list list \<Rightarrow> bool list list" where
  "jand ass bss = map (\<lambda>(as, bs). map (\<lambda>(a, b). a \<and> b) (zip as bs)) (zip ass bss)"

definition np_mask :: "'a list \<Rightarrow> bool list \<Rightarrow> 'a list" where
  "np_mask xs ms = map fst (filter snd (zip xs ms))"

definition ak_mask :: "'a list list \<Rightarrow> bool list list \<Rightarrow> 'a list list" where
  "ak_mask xss mss = map (\<lambda>(xs, ms). np_mask xs ms) (zip xss mss)"

definition ak_num :: "'a list list \<Rightarrow> nat list" where
  "ak_num xss = map length xss"

definition ak_sum :: "bool list list \<Rightarrow> nat list" where
  "ak_sum mss = map (\<lambda>ms. length (filter id ms)) mss"

definition ak_firsts :: "'a list list \<Rightarrow> 'a option list" where
  "ak_firsts xss = map (\<lambda>xs. case xs of [] \<Rightarrow> None | x # _ \<Rightarrow> Some x) xss"

definition ak_flatten :: "'a list list \<Rightarrow> 'a list" where
  "ak_flatten xss = concat xss"

fun combinations2 :: "'a list \<Rightarrow> ('a \<times> 'a) list" where
  "combinations2 [] = []"
| "combinations2 (x # xs) = map (Pair x) xs @ combinations2 xs"

definition ak_combinations :: "'a list list \<Rightarrow> ('a \<times> 'a) list list" where
  "ak_combinations xss = map combinations2 xss"

subsection \<open>isClean\<close>

text \<open>
  \<open>obj_A.nearest(obj_B, return_metric=True)\<close>: per event and per object of \<open>obj_A\<close>, the
  smallest metric to an object of \<open>obj_B\<close> of the same event, \<open>None\<close> when the event has
  none. Only the metric is used.
\<close>

definition nearest_metric ::
  "('a \<Rightarrow> 'b \<Rightarrow> real) \<Rightarrow> 'a list list \<Rightarrow> 'b list list \<Rightarrow> real option list list"
where
  "nearest_metric metric obj_A obj_B =
     map (\<lambda>(as, bs). map (\<lambda>a. case bs of [] \<Rightarrow> None | _ \<Rightarrow> Some (min_list (map (metric a) bs))) as)
       (zip obj_A obj_B)"

text \<open>Lines 29-33. \<open>objB_DR > drmin\<close> keeps \<open>None\<close>, which \<open>ak.fill_none\<close> turns into \<open>True\<close>.\<close>

definition isClean ::
  "('a \<Rightarrow> 'b \<Rightarrow> real) \<Rightarrow> 'a list list \<Rightarrow> 'b list list \<Rightarrow> real \<Rightarrow> bool list list"
where
  "isClean delta_r obj_A obj_B drmin =
     (let objB_DR = nearest_metric delta_r obj_A obj_B;
          mask = jmap (\<lambda>d. case d of None \<Rightarrow> True | Some x \<Rightarrow> x > drmin) objB_DR
      in mask)"

section \<open>vplusjetPDFsyst.py: the accumulator\<close>

text \<open>
  A histogram with category axes is the sequence of its fills: the category values, the
  value on the binned axis, and the weight. The accumulator of the processor has a fixed
  set of entries, a record with one field per key of the dictionary; \<open>cutflow\<close> and
  \<open>sumw\<close> are dictionaries with a default of zero.
\<close>

type_synonym 'x chist = "(string list \<times> 'x \<times> real) list"

record dict_accumulator =
  out_LHE_Vpt :: "real chist"
  out_wei :: "real option chist"
  out_nlep :: "real chist"
  out_dilep_m :: "real chist"
  out_njet15 :: "real chist"
  out_dijet_dr :: "real chist"
  out_dijet_m :: "real chist"
  out_dijet_pt :: "real chist"
  out_dilep_pt :: "real chist"
  out_cutflow :: "string \<Rightarrow> string \<Rightarrow> int"
  out_sumw :: "string \<Rightarrow> real"

record processor =
  accumulator :: dict_accumulator

text \<open>Lines 36-56: \<open>__init__\<close> builds empty histograms and empty counters.\<close>

definition Processor :: processor where
  "Processor =
     \<lparr>accumulator =
        \<lparr>out_LHE_Vpt = [], out_wei = [], out_nlep = [], out_dilep_m = [], out_njet15 = [],
         out_dijet_dr = [], out_dijet_m = [], out_dijet_pt = [], out_dilep_pt = [],
         out_cutflow = (\<lambda>dataset k. 0), out_sumw = (\<lambda>dataset. 0)\<rparr>\<rparr>"

text \<open>\<open>identity()\<close>: a copy with the same entries, every histogram and counter emptied.\<close>

definition identity :: "dict_accumulator \<Rightarrow> dict_accumulator" where
  "identity acc =
     acc\<lparr>out_LHE_Vpt := [], out_wei := [], out_nlep := [], out_dilep_m := [],
         out_njet15 := [], out_dijet_dr := [], out_dijet_m := [], out_dijet_pt := [],
         out_dilep_pt := [], out_cutflow := (\<lambda>dataset k. 0), out_sumw := (\<lambda>dataset. 0)\<rparr>"

text \<open>
  \<open>hist.fill(cat=..., x=column, weight=column)\<close>: one fill per entry of the column; without
  \<open>weight\<close> every fill has weight one.
\<close>

definition hist_fill :: "string list \<Rightarrow> 'x list \<Rightarrow> real list \<Rightarrow> 'x chist \<Rightarrow> 'x chist" where
  "hist_fill cs xs ws h = h @ map (\<lambda>(x, w). (cs, x, w)) (zip xs ws)"

definition hist_fill1 :: "string list \<Rightarrow> 'x list \<Rightarrow> 'x chist \<Rightarrow> 'x chist" where
  "hist_fill1 cs xs h = hist_fill cs xs (map (\<lambda>x. 1) xs) h"

definition cutflow_add ::
  "string \<Rightarrow> string \<Rightarrow> int \<Rightarrow> (string \<Rightarrow> string \<Rightarrow> int) \<Rightarrow> string \<Rightarrow> string \<Rightarrow> int"
where
  "cutflow_add dataset k n cf = cf(dataset := (cf dataset)(k := cf dataset k + n))"

text \<open>\<open>str(p)\<close> for a non-negative integer.\<close>

fun str :: "nat \<Rightarrow> string" where
  "str n = (if n < 10 then [''0123456789'' ! n] else str (n div 10) @ [''0123456789'' ! (n mod 10)])"

declare str.simps [simp del]

section \<open>vplusjetPDFsyst.py: Processor.process\<close>

text \<open>Lines 88-95, 100: the mask of good muons.\<close>

definition goodmuon :: "muon list list \<Rightarrow> bool list list" where
  "goodmuon muons =
     jand (jmap (\<lambda>m. Muon_pt m > 15) muons)
    (jand (jmap (\<lambda>m. \<bar>Muon_eta m\<bar> < 2.4) muons)
    (jand (jmap (\<lambda>m. Muon_pfRelIso04_all m < 0.25) muons)
    (jand (jmap Muon_looseId muons)
    (jand (jmap (\<lambda>m. \<bar>Muon_dxy m\<bar> < 0.05) muons)
          (jmap (\<lambda>m. \<bar>Muon_dz m\<bar> < 0.1) muons)))))"

text \<open>Line 98: computed and never used.\<close>

definition lead_muon_pt :: "muon list list \<Rightarrow> bool option list" where
  "lead_muon_pt muons =
     map (map_option (\<lambda>m. Muon_pt m > 20)) (ak_firsts (ak_mask muons (goodmuon muons)))"

text \<open>Lines 102-107, on the good muons.\<close>

definition good_dimuons :: "kinlib \<Rightarrow> muon list list \<Rightarrow> (muon \<times> muon) list list" where
  "good_dimuons K muons =
     (let dimuons = ak_combinations muons;
          opposites = jmap (\<lambda>(i0, i1). Muon_charge i0 \<noteq> Muon_charge i1) dimuons;
          limits = jand (jmap (\<lambda>(i0, i1). mumu_mass K i0 i1 \<ge> 60) dimuons)
                        (jmap (\<lambda>(i0, i1). mumu_mass K i0 i1 < 120) dimuons)
      in ak_mask dimuons (jand opposites limits))"

text \<open>Lines 110-120.\<close>

definition goodelectron :: "electron list list \<Rightarrow> bool list list" where
  "goodelectron electrons =
     jand (jmap (\<lambda>e. Electron_pt e > 15) electrons)
    (jand (jmap (\<lambda>e. \<bar>Electron_eta e\<bar> < 2.5) electrons)
    (jand (jmap (\<lambda>e. \<bar>Electron_dxy e\<bar> < 0.05) electrons)
    (jand (jmap (\<lambda>e. \<bar>Electron_dz e\<bar> < 0.1) electrons)
    (jand (jmap (\<lambda>e. Electron_lostHits e < 2) electrons)
    (jand (jmap (\<lambda>e. Electron_miniPFRelIso_all e < 0.4) electrons)
          (jmap (\<lambda>e. (Electron_mvaFall17V2noIso e > 0 \<and> \<bar>Electron_eta e\<bar> < 1.479) \<or>
                      (Electron_mvaFall17V2noIso e > 0.7 \<and> \<bar>Electron_eta e\<bar> > 1.479 \<and>
                       \<bar>Electron_eta e\<bar> < 2.5)) electrons))))))"

text \<open>Lines 135-146, with the good electrons and the good muons.\<close>

definition good_jets :: "kinlib \<Rightarrow> jet list list \<Rightarrow> electron list list \<Rightarrow> muon list list \<Rightarrow> jet list list" where
  "good_jets K all_jets electrons muons =
     (let jets = ak_mask all_jets
                   (jand (jmap (\<lambda>j. Jet_pt j > 30) all_jets)
                   (jand (jmap (\<lambda>j. \<bar>Jet_eta j\<bar> < 2.5) all_jets)
                         (jmap Jet_isTight all_jets)));
          j_isclean = jand (isClean (je_delta_r K) jets electrons 0.4)
                           (isClean (jm_delta_r K) jets muons 0.4)
      in ak_mask jets j_isclean)"

text \<open>Lines 128, 154, 160.\<close>

definition full_selection ::
  "kinlib \<Rightarrow> muon list list \<Rightarrow> electron list list \<Rightarrow> jet list list \<Rightarrow> bool list"
where
  "full_selection K all_muons all_electrons all_jets =
     (let muons = ak_mask all_muons (goodmuon all_muons);
          electrons = ak_mask all_electrons (goodelectron all_electrons);
          two_lep = map (\<lambda>n. n = 1) (ak_num (good_dimuons K muons));
          two_jets = map (\<lambda>n. n \<ge> 2) (ak_num (good_jets K all_jets electrons muons))
      in map (\<lambda>(a, b). a \<and> b) (zip two_lep two_jets))"

text \<open>
  Lines 188-190. \<open>LHEPdfWeight[:, p]\<close> raises inside \<open>awkward\<close> when a selected event has
  no weight number \<open>p\<close>.
\<close>

definition pdf_column :: "real list list \<Rightarrow> nat \<Rightarrow> error + real list" where
  "pdf_column pdfs p =
     (if list_all (\<lambda>ws. p < length ws) pdfs then Inr (map (\<lambda>ws. ws ! p) pdfs)
      else Inl (LibraryError ''index out of range''))"

fun pdf_loop ::
  "chunk \<Rightarrow> string \<Rightarrow> real list \<Rightarrow> real list \<Rightarrow> nano_event list \<Rightarrow> nat list \<Rightarrow> real chist \<Rightarrow>
     error + real chist"
where
  "pdf_loop events dataset vpts weight selected_events [] h = Inr h"
| "pdf_loop events dataset vpts weight selected_events (p # ps) h =
     (case branch events ''LHEPdfWeight'' (map LHEPdfWeight selected_events) of
        Inl e \<Rightarrow> Inl e
      | Inr pdfs \<Rightarrow>
         (case pdf_column pdfs p of
            Inl e \<Rightarrow> Inl e
          | Inr column \<Rightarrow>
             (let PdfWei = map (\<lambda>x. 2 * x) column
              in pdf_loop events dataset vpts weight selected_events ps
                   (hist_fill [dataset, str p] vpts
                      (map (\<lambda>(w, x). w * x) (zip weight PdfWei)) h))))"

text \<open>Lines 63-192.\<close>

definition process :: "kinlib \<Rightarrow> processor \<Rightarrow> chunk \<Rightarrow> error + dict_accumulator" where
  "process K self events =
     (let output = identity (accumulator self) in
      ebind (metadata_get events ''dataset'') (\<lambda>dataset.
      ebind (branch events ''LHEPdfWeight'' (map LHEPdfWeight (rows events))) (\<lambda>pdf_all.
      ebind (branch events ''LHE'' (map LHE_Vpt (rows events))) (\<lambda>LHE_Vpt.
      let output = output\<lparr>out_cutflow :=
                     cutflow_add dataset ''all_events'' (int (length LHE_Vpt)) (out_cutflow output)\<rparr>;
          output = output\<lparr>out_cutflow :=
                     cutflow_add dataset ''number_of_chunks'' 1 (out_cutflow output)\<rparr>
      in
      ebind (branch events ''genWeight'' (map genWeight (rows events))) (\<lambda>weight_nosel.
      let output = output\<lparr>out_sumw :=
                     (out_sumw output)(dataset := out_sumw output dataset + sum_list weight_nosel)\<rparr>;
          output = output\<lparr>out_LHE_Vpt := hist_fill [dataset] LHE_Vpt weight_nosel (out_LHE_Vpt output)\<rparr>;
          output = output\<lparr>out_wei :=
                     hist_fill1 [dataset]
                       (map (\<lambda>w. if w = 0 then None else Some (w / \<bar>w\<bar>)) weight_nosel)
                       (out_wei output)\<rparr>
      in
      ebind (branch events ''Muon'' (map Muon (rows events))) (\<lambda>all_muons.
      let nmuons = ak_sum (goodmuon all_muons);
          lead = lead_muon_pt all_muons;
          muons = ak_mask all_muons (goodmuon all_muons);
          dimuons = good_dimuons K muons
      in
      ebind (branch events ''Electron'' (map Electron (rows events))) (\<lambda>all_electrons.
      let electrons = ak_mask all_electrons (goodelectron all_electrons);
          vpt = jmap (\<lambda>(i0, i1). mumu_pt K i0 i1) dimuons;
          vmass = jmap (\<lambda>(i0, i1). mumu_mass K i0 i1) dimuons;
          output = output\<lparr>out_nlep := hist_fill1 [dataset] (map real nmuons) (out_nlep output)\<rparr>
      in
      ebind (branch events ''MET'' (map MET_pt (rows events))) (\<lambda>MET.
      ebind (branch events ''Jet'' (map Jet (rows events))) (\<lambda>all_jets.
      let gjets = good_jets K all_jets electrons muons;
          output = output\<lparr>out_njet15 := hist_fill1 [dataset] (map real (ak_num gjets)) (out_njet15 output)\<rparr>;
          sel = full_selection K all_muons all_electrons all_jets;
          selected_events = np_mask (rows events) sel;
          output = output\<lparr>out_cutflow :=
                     cutflow_add dataset ''selected_events'' (int (length selected_events))
                       (out_cutflow output)\<rparr>;
          j_2l2j = np_mask gjets sel;
          dijet_pt = map (\<lambda>js. jj_pt K (js ! 0) (js ! 1)) j_2l2j;
          dijet_m = map (\<lambda>js. jj_mass K (js ! 0) (js ! 1)) j_2l2j;
          dijet_dr = map (\<lambda>js. jj_delta_r K (js ! 0) (js ! 1)) j_2l2j
      in
      ebind (branch events ''genWeight'' (map genWeight selected_events)) (\<lambda>weight.
      let output = output\<lparr>out_dilep_m :=
                     hist_fill [dataset] (ak_flatten (np_mask vmass sel)) weight (out_dilep_m output)\<rparr>;
          output = output\<lparr>out_dilep_pt :=
                     hist_fill [dataset, ''Default''] (ak_flatten (np_mask vpt sel)) weight
                       (out_dilep_pt output)\<rparr>;
          output = output\<lparr>out_dijet_m := hist_fill [dataset] dijet_m weight (out_dijet_m output)\<rparr>;
          output = output\<lparr>out_dijet_pt := hist_fill [dataset] dijet_pt weight (out_dijet_pt output)\<rparr>;
          output = output\<lparr>out_dijet_dr := hist_fill [dataset] dijet_dr weight (out_dijet_dr output)\<rparr>
      in
      ebind (pdf_loop events dataset (ak_flatten (np_mask vpt sel)) weight selected_events
               [0..<32] (out_dilep_pt output)) (\<lambda>h.
      Inr (output\<lparr>out_dilep_pt := h\<rparr>))))))))))))"

section \<open>vplusjetPDFsyst.py: the selection event by event\<close>

text \<open>
  The cuts of \<open>goodmuon\<close> and \<open>goodelectron\<close> on one object, and the good muons and
  electrons of one event.
\<close>

definition passes_goodmuon :: "muon \<Rightarrow> bool" where
  "passes_goodmuon m \<longleftrightarrow>
     Muon_pt m > 15 \<and> \<bar>Muon_eta m\<bar> < 2.4 \<and> Muon_pfRelIso04_all m < 0.25 \<and> Muon_looseId m \<and>
     \<bar>Muon_dxy m\<bar> < 0.05 \<and> \<bar>Muon_dz m\<bar> < 0.1"

definition passes_goodelectron :: "electron \<Rightarrow> bool" where
  "passes_goodelectron e \<longleftrightarrow>
     Electron_pt e > 15 \<and> \<bar>Electron_eta e\<bar> < 2.5 \<and> \<bar>Electron_dxy e\<bar> < 0.05 \<and>
     \<bar>Electron_dz e\<bar> < 0.1 \<and> Electron_lostHits e < 2 \<and> Electron_miniPFRelIso_all e < 0.4 \<and>
     ((Electron_mvaFall17V2noIso e > 0 \<and> \<bar>Electron_eta e\<bar> < 1.479) \<or>
      (Electron_mvaFall17V2noIso e > 0.7 \<and> \<bar>Electron_eta e\<bar> > 1.479 \<and> \<bar>Electron_eta e\<bar> < 2.5))"

definition good_muons :: "nano_event \<Rightarrow> muon list" where
  "good_muons ev = filter passes_goodmuon (Muon ev)"

definition good_electrons :: "nano_event \<Rightarrow> electron list" where
  "good_electrons ev = filter passes_goodelectron (Electron ev)"

text \<open>
  The good dimuon pairs of an event: the pairs of good muons, in the order of the
  collection, of opposite charge and with an invariant mass in \<open>[60, 120)\<close>. The clean
  tight jets: tight jets with \<open>pt > 30\<close> and \<open>|eta| < 2.5\<close> that are farther than \<open>0.4\<close>
  from every good electron and every good muon. An event is fully selected when it has
  exactly one good dimuon pair and at least two clean tight jets.
\<close>

definition dimuon_pairs :: "kinlib \<Rightarrow> nano_event \<Rightarrow> (muon \<times> muon) list" where
  "dimuon_pairs K ev =
     filter (\<lambda>(a, b). Muon_charge a \<noteq> Muon_charge b \<and> 60 \<le> mumu_mass K a b \<and> mumu_mass K a b < 120)
       (combinations2 (good_muons ev))"

definition clean_tight_jets :: "kinlib \<Rightarrow> nano_event \<Rightarrow> jet list" where
  "clean_tight_jets K ev =
     filter (\<lambda>j. Jet_pt j > 30 \<and> \<bar>Jet_eta j\<bar> < 2.5 \<and> Jet_isTight j \<and>
                 list_all (\<lambda>e. je_delta_r K j e > 0.4) (good_electrons ev) \<and>
                 list_all (\<lambda>m. jm_delta_r K j m > 0.4) (good_muons ev))
       (Jet ev)"

definition fully_selected :: "kinlib \<Rightarrow> nano_event \<Rightarrow> bool" where
  "fully_selected K ev \<longleftrightarrow> length (dimuon_pairs K ev) = 1 \<and> length (clean_tight_jets K ev) \<ge> 2"

text \<open>
  The fills of a histogram under one combination of categories; the fully selected
  events of a chunk; the transverse momenta and masses of the good dimuon pairs of an
  event; and the fills of PDF variation \<open>p\<close>: the dilepton pt of each selected event,
  weighted with \<open>genWeight\<close> times twice the \<open>p\<close>-th PDF weight.
\<close>

definition category_fills :: "string list \<Rightarrow> 'x chist \<Rightarrow> ('x \<times> real) list" where
  "category_fills cs h = map snd (filter (\<lambda>e. fst e = cs) h)"

definition selected_rows :: "kinlib \<Rightarrow> chunk \<Rightarrow> nano_event list" where
  "selected_rows K events = filter (fully_selected K) (rows events)"

definition dilepton_pts :: "kinlib \<Rightarrow> nano_event \<Rightarrow> real list" where
  "dilepton_pts K ev = map (\<lambda>(a, b). mumu_pt K a b) (dimuon_pairs K ev)"

definition dilepton_masses :: "kinlib \<Rightarrow> nano_event \<Rightarrow> real list" where
  "dilepton_masses K ev = map (\<lambda>(a, b). mumu_mass K a b) (dimuon_pairs K ev)"

definition pdf_fills :: "kinlib \<Rightarrow> string \<Rightarrow> nano_event list \<Rightarrow> nat \<Rightarrow> real chist" where
  "pdf_fills K dataset sel p =
     map (\<lambda>(x, ev). ([dataset, str p], x, genWeight ev * (2 * (LHEPdfWeight ev ! p))))
       (zip (concat (map (dilepton_pts K) sel)) sel)"

text \<open>
  The output of \<open>process\<close> written event by event, from the fully selected events.
\<close>

definition process_output :: "kinlib \<Rightarrow> string \<Rightarrow> nano_event list \<Rightarrow> dict_accumulator" where
  "process_output K dataset rs =
     (let sel = filter (fully_selected K) rs;
          weight = map genWeight sel;
          j0 = (\<lambda>ev. clean_tight_jets K ev ! 0);
          j1 = (\<lambda>ev. clean_tight_jets K ev ! 1)
      in
      \<lparr>out_LHE_Vpt = hist_fill [dataset] (map LHE_Vpt rs) (map genWeight rs) [],
       out_wei = hist_fill1 [dataset]
                   (map (\<lambda>ev. if genWeight ev = 0 then None
                               else Some (genWeight ev / \<bar>genWeight ev\<bar>)) rs) [],
       out_nlep = hist_fill1 [dataset] (map (\<lambda>ev. real (length (good_muons ev))) rs) [],
       out_dilep_m = hist_fill [dataset] (concat (map (dilepton_masses K) sel)) weight [],
       out_njet15 = hist_fill1 [dataset] (map (\<lambda>ev. real (length (clean_tight_jets K ev))) rs) [],
       out_dijet_dr = hist_fill [dataset] (map (\<lambda>ev. jj_delta_r K (j0 ev) (j1 ev)) sel) weight [],
       out_dijet_m = hist_fill [dataset] (map (\<lambda>ev. jj_mass K (j0 ev) (j1 ev)) sel) weight [],
       out_dijet_pt = hist_fill [dataset] (map (\<lambda>ev. jj_pt K (j0 ev) (j1 ev)) sel) weight [],
       out_dilep_pt =
         hist_fill [dataset, ''Default''] (concat (map (dilepton_pts K) sel)) weight [] @
         concat (map (pdf_fills K dataset sel) [0..<32]),
       out_cutflow =
         cutflow_add dataset ''selected_events'' (int (length sel))
           (cutflow_add dataset ''number_of_chunks'' 1
             (cutflow_add dataset ''all_events'' (int (length rs)) (\<lambda>d k. 0))),
       out_sumw = (\<lambda>d. 0)(dataset := sum_list (map genWeight rs))\<rparr>)"

text \<open>
  The collections in the order \<open>process\<close> first reads them, and the exception of the
  first access that raises: the \<open>KeyError\<close> of a missing \<open>dataset\<close> entry, or that of the
  first unreadable collection.
\<close>

definition accesses :: "string list" where
  "accesses = [''LHEPdfWeight'', ''LHE'', ''genWeight'', ''Muon'', ''Electron'', ''MET'', ''Jet'']"

definition first_failure :: "chunk \<Rightarrow> error option" where
  "first_failure events =
     (case map_of (metadata events) ''dataset'' of
        None \<Rightarrow> Some KeyError
      | Some d \<Rightarrow>
         (case filter (\<lambda>n. map_of (unreadable events) n \<noteq> None) accesses of
            [] \<Rightarrow> None
          | n # _ \<Rightarrow> map_of (unreadable events) n))"

section \<open>Reference kinematics and a concrete chunk\<close>

text \<open>
  The textbook kinematics of objects given by \<open>pt\<close>, \<open>eta\<close>, \<open>phi\<close> and mass: the Cartesian
  four-vector, the azimuthal difference wrapped into \<open>[-\<pi>, \<pi>)\<close>, and \<open>\<Delta>R\<close>.
\<close>

definition xyzt :: "real \<Rightarrow> real \<Rightarrow> real \<Rightarrow> real \<Rightarrow> real \<times> real \<times> real \<times> real" where
  "xyzt pT eta' phi m =
     (pT * cos phi, pT * sin phi, pT * sinh eta', sqrt (pT * cosh eta' * (pT * cosh eta') + m * m))"

definition delta_phi :: "real \<Rightarrow> real \<Rightarrow> real" where
  "delta_phi a b = (let d = a - b + pi in d - 2 * pi * of_int \<lfloor>d / (2 * pi)\<rfloor> - pi)"

definition eta_phi_delta_r :: "real \<Rightarrow> real \<Rightarrow> real \<Rightarrow> real \<Rightarrow> real" where
  "eta_phi_delta_r eta1 phi1 eta2 phi2 =
     sqrt ((eta1 - eta2) * (eta1 - eta2) + delta_phi phi1 phi2 * delta_phi phi1 phi2)"

definition ptetaphim :: kinlib where
  "ptetaphim =
     \<lparr>mumu_mass = (\<lambda>a b. mass cartesian (vadd cartesian
                     (xyzt (Muon_pt a) (Muon_eta a) (Muon_phi a) (Muon_mass a))
                     (xyzt (Muon_pt b) (Muon_eta b) (Muon_phi b) (Muon_mass b)))),
      mumu_pt = (\<lambda>a b. pt cartesian (vadd cartesian
                     (xyzt (Muon_pt a) (Muon_eta a) (Muon_phi a) (Muon_mass a))
                     (xyzt (Muon_pt b) (Muon_eta b) (Muon_phi b) (Muon_mass b)))),
      jj_mass = (\<lambda>a b. mass cartesian (vadd cartesian
                     (xyzt (Jet_pt a) (Jet_eta a) (Jet_phi a) (Jet_mass a))
                     (xyzt (Jet_pt b) (Jet_eta b) (Jet_phi b) (Jet_mass b)))),
      jj_pt = (\<lambda>a b. pt cartesian (vadd cartesian
                     (xyzt (Jet_pt a) (Jet_eta a) (Jet_phi a) (Jet_mass a))
                     (xyzt (Jet_pt b) (Jet_eta b) (Jet_phi b) (Jet_mass b)))),
      jj_delta_r = (\<lambda>a b. eta_phi_delta_r (Jet_eta a) (Jet_phi a) (Jet_eta b) (Jet_phi b)),
      je_delta_r = (\<lambda>a b. eta_phi_delta_r (Jet_eta a) (Jet_phi a) (Electron_eta b) (Electron_phi b)),
      jm_delta_r = (\<lambda>a b. eta_phi_delta_r (Jet_eta a) (Jet_phi a) (Muon_eta b) (Muon_phi b))\<rparr>"

text \<open>
  A Drell-Yan event: two back-to-back muons of opposite charge with invariant mass 90,
  two tight jets at \<open>eta = \<plusminus>2\<close>, generator weight 3 and thirty-two PDF weights equal to 1.
\<close>

definition muon1 :: muon where
  "muon1 = \<lparr>Muon_pt = 45, Muon_eta = 0, Muon_phi = 0, Muon_mass = 0, Muon_charge = 1,
            Muon_pfRelIso04_all = 0.1, Muon_looseId = True, Muon_dxy = 0, Muon_dz = 0\<rparr>"

definition muon2 :: muon where
  "muon2 = \<lparr>Muon_pt = 45, Muon_eta = 0, Muon_phi = pi, Muon_mass = 0, Muon_charge = - 1,
            Muon_pfRelIso04_all = 0.1, Muon_looseId = True, Muon_dxy = 0, Muon_dz = 0\<rparr>"

definition jet1 :: jet where
  "jet1 = \<lparr>Jet_pt = 50, Jet_eta = 2, Jet_phi = 0, Jet_mass = 0, Jet_isTight = True\<rparr>"

definition jet2 :: jet where
  "jet2 = \<lparr>Jet_pt = 40, Jet_eta = - 2, Jet_phi = 0, Jet_mass = 0, Jet_isTight = True\<rparr>"

definition dy_event :: nano_event where
  "dy_event = \<lparr>genWeight = 3, LHE_Vpt = 300, LHEPdfWeight = replicate 32 1,
               Muon = [muon1, muon2], Electron = [], MET_pt = 0, Jet = [jet1, jet2]\<rparr>"

definition dy_chunk :: chunk where
  "dy_chunk = \<lparr>metadata = [(''dataset'', ''DY'')], unreadable = [], rows = [dy_event]\<rparr>"

text \<open>
  The same event with two soft muons: transverse momentum 18, below the threshold of
  line 98, and a mass that puts the pair at an invariant mass of 60.
\<close>

definition soft_muon1 :: muon where
  "soft_muon1 = \<lparr>Muon_pt = 18, Muon_eta = 0, Muon_phi = 0, Muon_mass = 24, Muon_charge = 1,
            Muon_pfRelIso04_all = 0.1, Muon_looseId = True, Muon_dxy = 0, Muon_dz = 0\<rparr>"

definition soft_muon2 :: muon where
  "soft_muon2 = \<lparr>Muon_pt = 18, Muon_eta = 0, Muon_phi = pi, Muon_mass = 24, Muon_charge = - 1,
            Muon_pfRelIso04_all = 0.1, Muon_looseId = True, Muon_dxy = 0, Muon_dz = 0\<rparr>"

definition soft_event :: nano_event where
  "soft_event = \<lparr>genWeight = 1, LHE_Vpt = 300, LHEPdfWeight = replicate 32 1,
               Muon = [soft_muon1, soft_muon2], Electron = [], MET_pt = 0, Jet = [jet1, jet2]\<rparr>"

text \<open>
  The Drell-Yan chunk with a jet collection whose access raises, and with an event
  that has nine PDF weights only.
\<close>

definition broken_chunk :: chunk where
  "broken_chunk =
     \<lparr>metadata = [(''dataset'', ''DY'')], unreadable = [(''Jet'', AttributeError)],
      rows = [dy_event]\<rparr>"

definition short_pdf_chunk :: chunk where
  "short_pdf_chunk =
     \<lparr>metadata = [(''dataset'', ''DY'')], unreadable = [],
      rows = [dy_event\<lparr>LHEPdfWeight := replicate 9 1\<rparr>]\<rparr>"

section \<open>Plotting and the serialized collection\<close>

text \<open>
  The file system as the two scripts use it: a file is an image written by \<open>savefig\<close>
  or a collection written by \<open>pickle.dump\<close>, and \<open>pickle.load\<close> gives back the collection
  that was dumped. The paths written and the paths read are logged in order.
\<close>

datatype ('c, 'i) stored = Png 'i | Pkl 'c

record ('c, 'i) filesystem =
  files :: "string \<Rightarrow> ('c, 'i) stored option"
  dirs :: "string list"
  writes :: "string list"
  reads :: "string list"

definition path_exists :: "('c, 'i) filesystem \<Rightarrow> string \<Rightarrow> bool" where
  "path_exists fs p \<longleftrightarrow> p \<in> set (dirs fs) \<or> files fs p \<noteq> None"

definition makedirs :: "string \<Rightarrow> ('c, 'i) filesystem \<Rightarrow> ('c, 'i) filesystem" where
  "makedirs p fs = fs\<lparr>dirs := p # dirs fs\<rparr>"

definition savefig :: "string \<Rightarrow> 'i \<Rightarrow> ('c, 'i) filesystem \<Rightarrow> ('c, 'i) filesystem" where
  "savefig p img fs = fs\<lparr>files := (files fs)(p \<mapsto> Png img), writes := writes fs @ [p]\<rparr>"

definition pkl_dump :: "'c \<Rightarrow> string \<Rightarrow> ('c, 'i) filesystem \<Rightarrow> ('c, 'i) filesystem" where
  "pkl_dump c p fs = fs\<lparr>files := (files fs)(p \<mapsto> Pkl c), writes := writes fs @ [p]\<rparr>"

definition pkl_load :: "string \<Rightarrow> ('c, 'i) filesystem \<Rightarrow> error + 'c \<times> ('c, 'i) filesystem" where
  "pkl_load p fs =
     (case files fs p of
        None \<Rightarrow> Inl FileNotFoundError
      | Some (Png img) \<Rightarrow> Inl (LibraryError ''UnpicklingError'')
      | Some (Pkl c) \<Rightarrow> Inr (c, fs\<lparr>reads := reads fs @ [p]\<rparr>))"

definition png_path :: "string \<Rightarrow> string \<Rightarrow> string" where
  "png_path outdir observable = outdir @ ''/'' @ observable @ ''.png''"

definition pkl_path :: "string \<Rightarrow> string" where
  "pkl_path outdir = outdir @ ''/Pickles.pkl''"


subsection \<open>lhePlot.py\<close>

text \<open>Lines 12-16: the parsed command line.\<close>

record lhe_opt =
  lhe_outdir :: string
  lhe_inputfile :: string

text \<open>
  Lines 19-31. \<open>plot\<close> is the image that \<open>histogram.plot()\<close> draws on the cleared figure,
  a function of the plotting library.
\<close>

definition lhe_plot ::
  "(hist \<Rightarrow> 'i) \<Rightarrow> lhe_opt \<Rightarrow> histograms \<Rightarrow> bool \<Rightarrow> (histograms, 'i) filesystem \<Rightarrow>
     (histograms, 'i) filesystem"
where
  "lhe_plot plot opt histograms fromPickles fs =
     (let outdir = lhe_outdir opt;
          fs1 = (if \<not> path_exists fs outdir then makedirs outdir fs else fs);
          fs2 = foldl (\<lambda>fs (observable, histogram).
                   savefig (png_path outdir observable) (plot histogram) fs) fs1 histograms
      in if \<not> fromPickles then pkl_dump histograms (pkl_path outdir) fs2 else fs2)"

text \<open>Lines 33-36.\<close>

definition lhe_plotFromPickles ::
  "(hist \<Rightarrow> 'i) \<Rightarrow> lhe_opt \<Rightarrow> string \<Rightarrow> (histograms, 'i) filesystem \<Rightarrow>
     error + (histograms, 'i) filesystem"
where
  "lhe_plotFromPickles plot opt inputfile fs =
     (case pkl_load inputfile fs of
        Inl e \<Rightarrow> Inl e
      | Inr (hists, fs1) \<Rightarrow> Inr (lhe_plot plot opt hists True fs1))"


subsection \<open>vplusjetPDFsyst.py\<close>

text \<open>
  The plotting library of the second script: the test \<open>type(histogram) is Hist\<close> and the
  images that \<open>plotgrid\<close> and \<open>plot1d\<close> draw, autoscaled. The collection is a dictionary
  with entries of any kind, in the order of \<open>items()\<close>.
\<close>

record ('e, 'i) plotlib =
  is_Hist :: "'e \<Rightarrow> bool"
  plotgrid :: "'e \<Rightarrow> 'i"
  plot1d :: "'e \<Rightarrow> 'i"

text \<open>Lines 199-219.\<close>

definition vpj_plot ::
  "('e, 'i) plotlib \<Rightarrow> (string \<times> 'e) list \<Rightarrow> string \<Rightarrow> bool \<Rightarrow>
     ((string \<times> 'e) list, 'i) filesystem \<Rightarrow> ((string \<times> 'e) list, 'i) filesystem"
where
  "vpj_plot P histograms outdir fromPickles fs =
     (let fs1 = (if \<not> path_exists fs outdir then makedirs outdir fs else fs);
          fs2 = foldl (\<lambda>fs (observable, histogram).
                   if is_Hist P histogram then
                     savefig (png_path outdir observable)
                       (if observable = ''dilep_pt'' then plotgrid P histogram
                        else plot1d P histogram) fs
                   else fs) fs1 histograms
      in if \<not> fromPickles then pkl_dump histograms (pkl_path outdir) fs2 else fs2)"

text \<open>Lines 221-223.\<close>

definition vpj_plotFromPickles ::
  "('e, 'i) plotlib \<Rightarrow> string \<Rightarrow> string \<Rightarrow> ((string \<times> 'e) list, 'i) filesystem \<Rightarrow>
     error + ((string \<times> 'e) list, 'i) filesystem"
where
  "vpj_plotFromPickles P inputfile outdir fs =
     (case pkl_load inputfile fs of
        Inl e \<Rightarrow> Inl e
      | Inr (hists, fs1) \<Rightarrow> Inr (vpj_plot P hists outdir True fs1))"











section \<open>The plots and the command line: what the claims speak about\<close>

text \<open>
  The images that one call of \<open>plot\<close> saves, in the order of the loop: for \<open>lhePlot.py\<close>
  one image per entry of the collection, for \<open>vplusjetPDFsyst.py\<close> one per entry that is a
  \<open>Hist\<close>. \<open>save_images\<close> saves a list of images one after the other, and
  \<open>image_files\<close> is the content of the paths that it writes: a later image of the same
  path replaces an earlier one.
\<close>

definition save_images :: "(string \<times> 'i) list \<Rightarrow> ('c, 'i) filesystem \<Rightarrow> ('c, 'i) filesystem" where
  "save_images imgs fs = foldl (\<lambda>fs (p, img). savefig p img fs) fs imgs"

definition lhe_images :: "(hist \<Rightarrow> 'i) \<Rightarrow> string \<Rightarrow> histograms \<Rightarrow> (string \<times> 'i) list" where
  "lhe_images plot outdir histograms =
     map (\<lambda>(observable, histogram). (png_path outdir observable, plot histogram)) histograms"

definition vpj_images :: "('e, 'i) plotlib \<Rightarrow> string \<Rightarrow> (string \<times> 'e) list \<Rightarrow> (string \<times> 'i) list" where
  "vpj_images P outdir histograms =
     map (\<lambda>(observable, histogram).
            (png_path outdir observable,
             if observable = ''dilep_pt'' then plotgrid P histogram else plot1d P histogram))
       (filter (\<lambda>(observable, histogram). is_Hist P histogram) histograms)"

definition image_files :: "(string \<times> 'i) list \<Rightarrow> string \<Rightarrow> ('c, 'i) stored option" where
  "image_files imgs = map_of (rev (map (\<lambda>(p, img). (p, Png img)) imgs))"




text \<open>
  Concrete inputs: a file system with nothing in it, a world whose directories list
  nothing and whose job returns an empty collection, a plotting library for entries without
  content, a collection of one histogram with one fill, and the flags of two runs.
\<close>

definition empty_fs :: "('c, 'i) filesystem" where
  "empty_fs = \<lparr>files = (\<lambda>p. None), dirs = [], writes = [], reads = []\<rparr>"


definition no_plots :: "(unit, unit) plotlib" where
  "no_plots = \<lparr>is_Hist = (\<lambda>e. True), plotgrid = (\<lambda>e. ()), plot1d = (\<lambda>e. ())\<rparr>"

definition one_histogram :: histograms where
  "one_histogram = [(''nlep'', \<lparr>edges = linspace 0 6 6, entries = [(2, 1)]\<rparr>)]"

definition plots_opt :: lhe_opt where
  "plots_opt = \<lparr>lhe_outdir = ''plots'', lhe_inputfile = ''events.lhe''\<rparr>"


section \<open>lhePlot.py: properties of the event loop\<close>

lemma ebind_Inr [simp]: "ebind (Inr x) f = f x"
  by (simp add: ebind_def)

lemma ebind_Inl [simp]: "ebind (Inl e) f = Inl e"
  by (simp add: ebind_def)

lemma fill_keys: "fill name arg w h = Inr h' \<Longrightarrow> keys h' = keys h"
  by (cases arg) (auto simp: fill_def keys_def split: if_splits prod.splits)

lemma map_of_update_entries:
  "map_of (map (\<lambda>(k, hg). if k = name then (k, f hg) else (k, hg)) h) k' =
     (if k' = name then map_option f (map_of h k') else map_of h k')"
  by (induction h) auto

lemma fill_entries_other:
  "fill name arg w h = Inr h' \<Longrightarrow> k \<noteq> name \<Longrightarrow> entries_of h' k = entries_of h k"
  by (cases arg) (auto simp: fill_def entries_of_def map_of_update_entries split: if_splits)

lemma fill_entries_same:
  assumes "fill name (Inr x) w h = Inr h'"
  shows "entries_of h' name = entries_of h name @ [(x, w)]"
proof -
  from assms have mem: "name \<in> set (keys h)"
    by (auto simp: fill_def split: if_splits)
  then obtain hg where hg: "map_of h name = Some hg"
    by (cases "map_of h name") (auto simp: keys_def map_of_eq_None_iff)
  from assms mem have "h' = map (\<lambda>(k, hg). if k = name then (k, hg\<lparr>entries := entries hg @ [(x, w)]\<rparr>)
                                else (k, hg)) h"
    by (simp add: fill_def)
  then show ?thesis
    using hg by (simp add: entries_of_def map_of_update_entries)
qed

lemma fill_leptons_keys: "fill_leptons L wei h ls = Inr h' \<Longrightarrow> keys h' = keys h"
  by (induction ls arbitrary: h) (auto split: sum.splits dest!: fill_keys)

lemma fill_Zs_keys: "fill_Zs L wei h zs = Inr h' \<Longrightarrow> keys h' = keys h"
  by (induction zs arbitrary: h) (auto simp: Let_def split: sum.splits dest!: fill_keys)

lemma jet_loop_keys: "jet_loop L wei h j_p4 js = Inr (h', v) \<Longrightarrow> keys h' = keys h"
  by (induction js arbitrary: h j_p4) (auto split: sum.splits dest!: fill_keys)

lemma ebind_eq_Inr: "ebind m f = Inr y \<longleftrightarrow> (\<exists>x. m = Inr x \<and> f x = Inr y)"
  by (cases m) auto

lemma fill_dijet_keys: "fill_dijet L wei h js = Inr h' \<Longrightarrow> keys h' = keys h"
  by (auto simp: fill_dijet_def Let_def ebind_eq_Inr split: if_splits dest!: fill_keys)

lemma keeps_Inr [simp]: "keeps K (Inr h') \<longleftrightarrow> keys h' = K"
  by (simp add: keeps_def)

lemma keeps_Inl [simp]: "keeps K (Inl e)"
  by (simp add: keeps_def)

lemma keeps_ebind:
  "keeps K m \<Longrightarrow> (\<And>h1. keys h1 = K \<Longrightarrow> keeps K (f h1)) \<Longrightarrow> keeps K (ebind m f)"
  by (cases m) auto

lemma keeps_fill: "keys h = K \<Longrightarrow> keeps K (fill name arg w h)"
  by (cases "fill name arg w h") (auto dest: fill_keys)

lemma keeps_fill_leptons: "keys h = K \<Longrightarrow> keeps K (fill_leptons L wei h ls)"
  by (cases "fill_leptons L wei h ls") (auto dest: fill_leptons_keys)

lemma keeps_fill_Zs: "keys h = K \<Longrightarrow> keeps K (fill_Zs L wei h ls)"
  by (cases "fill_Zs L wei h ls") (auto dest: fill_Zs_keys)

lemma keeps_fill_dijet: "keys h = K \<Longrightarrow> keeps K (fill_dijet L wei h ls)"
  by (cases "fill_dijet L wei h ls") (auto dest: fill_dijet_keys)

lemma keeps_jet_ebind:
  "keys h = K \<Longrightarrow> (\<And>h1 v. keys h1 = K \<Longrightarrow> keeps K (f (h1, v))) \<Longrightarrow>
     keeps K (ebind (jet_loop L wei h j_p4 js) f)"
  by (cases "jet_loop L wei h j_p4 js") (auto dest: jet_loop_keys)

lemma keeps_fill_selected: "keys h = K \<Longrightarrow> keeps K (fill_selected L wei vpt vmass h ev)"
  unfolding fill_selected_def
  by (intro keeps_ebind keeps_fill keeps_fill_leptons keeps_fill_Zs keeps_jet_ebind
        | simp add: keeps_fill_dijet split: prod.split)+

lemma keeps_analyze_event: "keys h = K \<Longrightarrow> keeps K (analyze_event L h ev)"
  unfolding analyze_event_def Let_def
  by (intro keeps_ebind keeps_fill | simp add: keeps_fill_selected split: option.split list.split)+

lemma analyze_event_keys: "analyze_event L h ev = Inr h' \<Longrightarrow> keys h' = keys h"
  using keeps_analyze_event [of h "keys h" L ev] by simp

lemma event_loop_keys: "event_loop L h rd = Inr h' \<Longrightarrow> keys h' = keys h"
  by (induction rd arbitrary: h) (auto split: sum.splits dest!: analyze_event_keys)

lemma keys_setup_histograms:
  "keys setup_histograms =
    [''wei'', ''nlep'', ''lep_eta'', ''lep_pt'', ''dilep_m'', ''dilep_pt'', ''z_mass'', ''z_pt'',
     ''njet'', ''njet15'', ''jet_eta'', ''jet_pt'', ''jets_ht'', ''dijet_m'', ''dijet_pt'',
     ''dijet_dr'']"
  by (simp add: keys_def setup_histograms_def bins_def)

lemma fill_leptons_entries:
  "fill_leptons L wei h ls = Inr h' \<Longrightarrow> k \<noteq> ''lep_eta'' \<Longrightarrow> k \<noteq> ''lep_pt'' \<Longrightarrow>
     entries_of h' k = entries_of h k"
proof (induction ls arbitrary: h)
  case Nil
  then show ?case by simp
next
  case (Cons l ls)
  from Cons.prems(1) obtain h1 h2 where
    a: "fill ''lep_eta'' (eta L (p4 L l)) wei h = Inr h1" and
    b: "fill ''lep_pt'' (Inr (pt L (p4 L l))) wei h1 = Inr h2" and
    c: "fill_leptons L wei h2 ls = Inr h'"
    by (auto split: sum.splits)
  from Cons.IH [OF c Cons.prems(2,3)] fill_entries_other [OF b Cons.prems(3)]
    fill_entries_other [OF a Cons.prems(2)]
  show ?case by simp
qed

lemma fill_Zs_entries:
  "fill_Zs L wei h zs = Inr h' \<Longrightarrow> k \<noteq> ''z_mass'' \<Longrightarrow> k \<noteq> ''z_pt'' \<Longrightarrow>
     entries_of h' k = entries_of h k"
proof (induction zs arbitrary: h)
  case Nil
  then show ?case by simp
next
  case (Cons z zs)
  from Cons.prems(1) obtain h1 h2 where
    a: "fill ''z_mass'' (Inr (mass L (p4 L z))) wei h = Inr h1" and
    b: "fill ''z_pt'' (Inr (pt L (p4 L z))) wei h1 = Inr h2" and
    c: "fill_Zs L wei h2 zs = Inr h'"
    by (auto simp: Let_def split: sum.splits)
  from Cons.IH [OF c Cons.prems(2,3)] fill_entries_other [OF b Cons.prems(3)]
    fill_entries_other [OF a Cons.prems(2)]
  show ?case by simp
qed

lemma jet_loop_entries:
  "jet_loop L wei h j_p4 js = Inr (h', v) \<Longrightarrow> k \<noteq> ''jet_eta'' \<Longrightarrow> k \<noteq> ''jet_pt'' \<Longrightarrow>
     entries_of h' k = entries_of h k"
proof (induction js arbitrary: h j_p4)
  case Nil
  then show ?case by simp
next
  case (Cons j js)
  from Cons.prems(1) obtain h1 h2 where
    a: "fill ''jet_eta'' (eta L (p4 L j)) wei h = Inr h1" and
    b: "fill ''jet_pt'' (Inr (pt L (p4 L j))) wei h1 = Inr h2" and
    c: "jet_loop L wei h2 (case j_p4 of Some v \<Rightarrow> Some (vadd L v (p4 L j)) | None \<Rightarrow> Some (p4 L j)) js
          = Inr (h', v)"
    by (auto split: sum.splits)
  from Cons.IH [OF c Cons.prems(2,3)] fill_entries_other [OF b Cons.prems(3)]
    fill_entries_other [OF a Cons.prems(2)]
  show ?case by simp
qed

lemma fill_dijet_entries:
  assumes "fill_dijet L wei h js = Inr h'"
    and "k \<noteq> ''dijet_dr''" and "k \<noteq> ''dijet_m''" and "k \<noteq> ''dijet_pt''"
  shows "entries_of h' k = entries_of h k"
proof (cases "length js \<ge> 2")
  case False
  with assms(1) show ?thesis by (simp add: fill_dijet_def)
next
  case True
  with assms(1) obtain dr pt' m h1 h2 where
    a: "fill ''dijet_dr'' (Inr dr) wei h = Inr h1" and
    b: "fill ''dijet_m'' (Inr m) wei h1 = Inr h2" and
    c: "fill ''dijet_pt'' (Inr pt') wei h2 = Inr h'"
    by (auto simp: fill_dijet_def Let_def ebind_eq_Inr)
  from fill_entries_other [OF a assms(2)] fill_entries_other [OF b assms(3)]
    fill_entries_other [OF c assms(4)]
  show ?thesis by simp
qed

lemma fill_selected_dilep:
  assumes "fill_selected L wei vpt vmass h ev = Inr h'"
  shows "entries_of h' ''dilep_m'' = entries_of h ''dilep_m'' @ [(vmass, wei)]"
    and "entries_of h' ''dilep_pt'' = entries_of h ''dilep_pt'' @ [(vpt, wei)]"
proof -
  from assms obtain h4 h5 h6 h7 h8 h9 j_p4 h10 where
    s4: "fill ''wei'' (Inr wei) 1 h = Inr h4" and
    s5: "fill ''dilep_m'' (Inr vmass) wei h4 = Inr h5" and
    s6: "fill ''dilep_pt'' (Inr vpt) wei h5 = Inr h6" and
    s7: "fill_leptons L wei h6 (leptons ev) = Inr h7" and
    s8: "fill_Zs L wei h7 (Zs ev) = Inr h8" and
    s9: "jet_loop L wei h8 None (jets ev) = Inr (h9, j_p4)" and
    s10: "fill ''jets_ht'' (case j_p4 of None \<Rightarrow> Inl AttributeError | Some v \<Rightarrow> Inr (pt L v)) wei h9
            = Inr h10" and
    s11: "fill_dijet L wei h10 (jets15 L ev) = Inr h'"
    unfolding fill_selected_def ebind_eq_Inr by (auto simp: ebind_eq_Inr)
  have tail: "entries_of h' k = entries_of h6 k"
    if "k = ''dilep_m'' \<or> k = ''dilep_pt''" for k
    using that fill_leptons_entries [OF s7, of k] fill_Zs_entries [OF s8, of k]
      jet_loop_entries [OF s9, of k] fill_entries_other [OF s10, of k]
      fill_dijet_entries [OF s11, of k]
    by auto
  show "entries_of h' ''dilep_m'' = entries_of h ''dilep_m'' @ [(vmass, wei)]"
    using tail [of "''dilep_m''"] fill_entries_other [OF s6, of "''dilep_m''"]
      fill_entries_same [OF s5] fill_entries_other [OF s4, of "''dilep_m''"]
    by simp
  show "entries_of h' ''dilep_pt'' = entries_of h ''dilep_pt'' @ [(vpt, wei)]"
    using tail [of "''dilep_pt''"] fill_entries_same [OF s6]
      fill_entries_other [OF s5, of "''dilep_pt''"] fill_entries_other [OF s4, of "''dilep_pt''"]
    by simp
qed

lemma lepton_loop_Some:
  "lepton_loop L (Some v) ls =
     Some (foldl (vadd L) v (map (p4 L) (filter (\<lambda>l. pt L (p4 L l) \<ge> 1) ls)))"
  by (induction ls arbitrary: v) (auto simp: not_less)

lemma lepton_loop_None:
  "lepton_loop L None ls = p4_sum L (filter (\<lambda>l. pt L (p4 L l) \<ge> 1) ls)"
  by (induction ls) (auto simp: p4_sum_def lepton_loop_Some not_less)

lemma lepton_loop_dilepton_p4: "lepton_loop L None (leptons ev) = dilepton_p4 L ev"
  by (simp add: lepton_loop_None dilepton_p4_def)

lemma analyze_event_dilep:
  assumes "analyze_event L h ev = Inr h'"
  shows "entries_of h' ''dilep_m'' = entries_of h ''dilep_m'' @ dilepton_fills L (mass L) ev"
    and "entries_of h' ''dilep_pt'' = entries_of h ''dilep_pt'' @ dilepton_fills L (pt L) ev"
proof -
  from assms obtain h1 h2 h3 where
    s1: "fill ''nlep'' (Inr (real (length (leptons ev)))) 1 h = Inr h1" and
    s2: "fill ''njet'' (Inr (real (length (jets ev)))) 1 h1 = Inr h2" and
    s3: "fill ''njet15'' (Inr (real (length (jets15 L ev)))) 1 h2 = Inr h3" and
    rest: "(if length (leptons ev) \<noteq> 2 then Inr h3
      else
        (case dilepton_p4 L ev of
           None \<Rightarrow> Inl AttributeError
         | Some v_p4 \<Rightarrow>
            (let vpt = pt L v_p4; vmass = mass L v_p4 in
             if vpt < 250 \<or> vpt > 400 then Inr h3
             else if vmass < 50 \<or> vmass > 130 then Inr h3
             else
               (case weights ev of
                  [] \<Rightarrow> Inl IndexError
                | wei # _ \<Rightarrow> fill_selected L wei vpt vmass h3 ev)))) = Inr h'"
    unfolding analyze_event_def Let_def ebind_eq_Inr lepton_loop_dilepton_p4 by blast
  have pre: "entries_of h3 k = entries_of h k" if "k = ''dilep_m'' \<or> k = ''dilep_pt''" for k
    using that fill_entries_other [OF s1, of k] fill_entries_other [OF s2, of k]
      fill_entries_other [OF s3, of k] by auto
  have "entries_of h' ''dilep_m'' = entries_of h3 ''dilep_m'' @ dilepton_fills L (mass L) ev
      \<and> entries_of h' ''dilep_pt'' = entries_of h3 ''dilep_pt'' @ dilepton_fills L (pt L) ev"
    using rest
    by (auto simp: dilepton_fills_def dilepton_selected_def Let_def not_less
        split: if_splits option.splits list.splits dest: fill_selected_dilep)
  then show "entries_of h' ''dilep_m'' = entries_of h ''dilep_m'' @ dilepton_fills L (mass L) ev"
    and "entries_of h' ''dilep_pt'' = entries_of h ''dilep_pt'' @ dilepton_fills L (pt L) ev"
    by (simp_all add: pre)
qed

lemma event_loop_dilep:
  "event_loop L h rd = Inr h' \<Longrightarrow>
     entries_of h' ''dilep_m'' =
       entries_of h ''dilep_m'' @ concat (map (dilepton_fills L (mass L)) (reader_events rd)) \<and>
     entries_of h' ''dilep_pt'' =
       entries_of h ''dilep_pt'' @ concat (map (dilepton_fills L (pt L)) (reader_events rd))"
proof (induction rd arbitrary: h)
  case Nil
  then show ?case by (simp add: reader_events_def)
next
  case (Cons item rd)
  from Cons.prems obtain ev h1 where
    item: "item = Inr ev" and
    a: "analyze_event L h ev = Inr h1" and
    b: "event_loop L h1 rd = Inr h'"
    by (auto split: sum.splits)
  have ev: "reader_events (item # rd) = ev # reader_events rd"
    by (simp add: reader_events_def item)
  from Cons.IH [OF b] analyze_event_dilep [OF a] show ?case
    by (simp add: ev)
qed

lemma entries_of_setup_histograms: "entries_of setup_histograms k = []"
proof -
  have "entries_of (map (\<lambda>(observable, binning). (observable, \<lparr>edges = binning, entries = []\<rparr>)) bs) k = []"
    for bs :: "(string \<times> real list) list"
    by (induction bs) (auto simp: entries_of_def)
  then show ?thesis by (simp add: setup_histograms_def)
qed

lemma sqrt_22500: "sqrt 22500 = 150"
  by (rule real_sqrt_unique) simp_all

lemma sqrt_90000: "sqrt 90000 = 300"
  by (rule real_sqrt_unique) simp_all

lemma sqrt_15625: "sqrt 15625 = 125"
  by (rule real_sqrt_unique) simp_all

lemmas particle_defs = mu_plus_def mu_minus_def gluon_def

lemma leptons_zjet: "leptons zjet_event = [mu_plus, mu_minus]"
  by (simp add: leptons_def zjet_event_def particle_defs)

lemma jets_zjet: "jets zjet_event = [gluon]"
  by (simp add: jets_def zjet_event_def particle_defs)

lemma Zs_zjet: "Zs zjet_event = []"
  by (simp add: Zs_def zjet_event_def particle_defs)

lemma jets15_zjet: "jets15 cartesian zjet_event = [gluon]"
  by (simp add: jets15_def zjet_event_def particle_defs cartesian_def sqrt_22500 sqrt_90000)

lemma dilepton_p4_zjet: "dilepton_p4 cartesian zjet_event = Some (300, 0, 0, 325)"
  by (simp add: dilepton_p4_def leptons_zjet p4_sum_def cartesian_def particle_defs sqrt_22500)

lemma dilepton_selected_zjet: "dilepton_selected cartesian zjet_event"
  by (simp add: dilepton_selected_def dilepton_p4_zjet leptons_zjet)
     (simp add: cartesian_def sqrt_90000 sqrt_15625)

lemma fill_ok:
  assumes "name \<in> set (keys h)"
  shows "\<exists>h'. fill name (Inr x) w h = Inr h' \<and> keys h' = keys h"
proof -
  from assms obtain h' where "fill name (Inr x) w h = Inr h'"
    by (simp add: fill_def)
  with fill_keys [OF this] show ?thesis by simp
qed

lemma observables_present_keys:
  "keys h' = keys h \<Longrightarrow> observables_present h' = observables_present h"
  by (simp add: observables_present_def)

lemma observables_present_setup: "observables_present setup_histograms"
  by (simp add: observables_present_def keys_setup_histograms bins_def)

lemma observables_presentD:
  "observables_present h \<Longrightarrow> name \<in> set (map fst bins) \<Longrightarrow> name \<in> set (keys h)"
  by (auto simp: observables_present_def)

lemma fill_present:
  assumes "observables_present h" and "name \<in> set (map fst bins)"
  shows "\<exists>h'. fill name (Inr x) w h = Inr h' \<and> observables_present h'"
proof -
  from assms have "name \<in> set (keys h)" by (rule observables_presentD)
  from fill_ok [OF this, of x w] obtain h' where
    "fill name (Inr x) w h = Inr h'" "keys h' = keys h" by blast
  with assms(1) show ?thesis by (auto simp: observables_present_def)
qed

lemma fill_Inl: "\<exists>e'. fill name (Inl e) w h = Inl e'"
  by (simp add: fill_def)

lemma fill_leptons_ok:
  "observables_present h \<Longrightarrow>
     (\<exists>h'. fill_leptons L wei h ls = Inr h' \<and> observables_present h') \<longleftrightarrow>
     list_all (\<lambda>l. \<not> isl (eta L (p4 L l))) ls"
proof (induction ls arbitrary: h)
  case Nil
  then show ?case by simp
next
  case (Cons l ls)
  show ?case
  proof (cases "eta L (p4 L l)")
    case (Inl e)
    from fill_Inl [of "''lep_eta''" e wei h] obtain e' where
      "fill ''lep_eta'' (Inl e) wei h = Inl e'" by blast
    with Inl show ?thesis by simp
  next
    case (Inr x)
    from fill_present [OF Cons.prems, of "''lep_eta''" x wei] obtain h1 where
      h1: "fill ''lep_eta'' (Inr x) wei h = Inr h1" "observables_present h1"
      by (auto simp: bins_def)
    from fill_present [OF h1(2), of "''lep_pt''" "pt L (p4 L l)" wei] obtain h2 where
      h2: "fill ''lep_pt'' (Inr (pt L (p4 L l))) wei h1 = Inr h2" "observables_present h2"
      by (auto simp: bins_def)
    from Cons.IH [OF h2(2)] show ?thesis
      by (simp add: Inr h1 h2)
  qed
qed

lemma fill_Zs_ok:
  "observables_present h \<Longrightarrow> \<exists>h'. fill_Zs L wei h zs = Inr h' \<and> observables_present h'"
proof (induction zs arbitrary: h)
  case Nil
  then show ?case by simp
next
  case (Cons z zs)
  from fill_present [OF Cons.prems, of "''z_mass''" "mass L (p4 L z)" wei] obtain h1 where
    h1: "fill ''z_mass'' (Inr (mass L (p4 L z))) wei h = Inr h1" "observables_present h1"
    by (auto simp: bins_def)
  from fill_present [OF h1(2), of "''z_pt''" "pt L (p4 L z)" wei] obtain h2 where
    h2: "fill ''z_pt'' (Inr (pt L (p4 L z))) wei h1 = Inr h2" "observables_present h2"
    by (auto simp: bins_def)
  from Cons.IH [OF h2(2)] show ?case
    by (simp add: Let_def h1 h2)
qed

lemma jet_loop_ok:
  "observables_present h \<Longrightarrow>
     (\<exists>h' v. jet_loop L wei h j_p4 js = Inr (h', v) \<and> observables_present h' \<and>
        (v = None \<longleftrightarrow> j_p4 = None \<and> js = [])) \<longleftrightarrow>
     list_all (\<lambda>j. \<not> isl (eta L (p4 L j))) js"
proof (induction js arbitrary: h j_p4)
  case Nil
  then show ?case by simp
next
  case (Cons j js)
  show ?case
  proof (cases "eta L (p4 L j)")
    case (Inl e)
    from fill_Inl [of "''jet_eta''" e wei h] obtain e' where
      "fill ''jet_eta'' (Inl e) wei h = Inl e'" by blast
    with Inl show ?thesis by simp
  next
    case (Inr x)
    from fill_present [OF Cons.prems, of "''jet_eta''" x wei] obtain h1 where
      h1: "fill ''jet_eta'' (Inr x) wei h = Inr h1" "observables_present h1"
      by (auto simp: bins_def)
    from fill_present [OF h1(2), of "''jet_pt''" "pt L (p4 L j)" wei] obtain h2 where
      h2: "fill ''jet_pt'' (Inr (pt L (p4 L j))) wei h1 = Inr h2" "observables_present h2"
      by (auto simp: bins_def)
    from Cons.IH [OF h2(2), of "case j_p4 of Some v \<Rightarrow> Some (vadd L v (p4 L j)) | None \<Rightarrow> Some (p4 L j)"]
    show ?thesis
      by (cases j_p4) (simp_all add: Inr h1 h2)
  qed
qed

lemma jet_loop_None:
  "jet_loop L wei h j_p4 js = Inr (h', None) \<Longrightarrow> j_p4 = None \<and> js = []"
proof (induction js arbitrary: h j_p4)
  case Nil
  then show ?case by simp
next
  case (Cons j js)
  from Cons.prems obtain h2 where
    "jet_loop L wei h2 (case j_p4 of Some v \<Rightarrow> Some (vadd L v (p4 L j)) | None \<Rightarrow> Some (p4 L j)) js
       = Inr (h', None)"
    by (auto split: sum.splits)
  from Cons.IH [OF this] show ?case by (cases j_p4) simp_all
qed

lemma fill_dijet_ok:
  assumes "observables_present h"
  shows "(\<exists>h'. fill_dijet L wei h js = Inr h' \<and> observables_present h') \<longleftrightarrow>
     (2 \<le> length js \<longrightarrow> \<not> isl (deltar L (p4 L (js ! 0)) (p4 L (js ! 1))))"
proof (cases "2 \<le> length js")
  case False
  with assms show ?thesis by (auto simp: fill_dijet_def)
next
  case True
  let ?j1 = "p4 L (js ! 0)" and ?j2 = "p4 L (js ! Suc 0)"
  show ?thesis
  proof (cases "deltar L ?j1 ?j2")
    case (Inl e)
    with True show ?thesis by (simp add: fill_dijet_def Let_def)
  next
    case (Inr dr)
    from fill_present [OF assms, of "''dijet_dr''" dr wei] obtain h1 where
      h1: "fill ''dijet_dr'' (Inr dr) wei h = Inr h1" "observables_present h1"
      by (auto simp: bins_def)
    from fill_present [OF h1(2), of "''dijet_m''" "mass L (vadd L ?j1 ?j2)" wei] obtain h2 where
      h2: "fill ''dijet_m'' (Inr (mass L (vadd L ?j1 ?j2))) wei h1 = Inr h2" "observables_present h2"
      by (auto simp: bins_def)
    from fill_present [OF h2(2), of "''dijet_pt''" "pt L (vadd L ?j1 ?j2)" wei] obtain h3 where
      h3: "fill ''dijet_pt'' (Inr (pt L (vadd L ?j1 ?j2))) wei h2 = Inr h3" "observables_present h3"
      by (auto simp: bins_def)
    from True show ?thesis
      by (simp add: fill_dijet_def Let_def Inr h1 h2 h3)
  qed
qed

lemma fill_not_Inr_Inl: "fill name (Inl e) w h \<noteq> Inr h'"
  using fill_Inl [of name e w h] by auto

lemma fill_selected_no_jets:
  assumes "jets ev = []"
  shows "fill_selected L wei vpt vmass h ev \<noteq> Inr h'"
proof
  assume "fill_selected L wei vpt vmass h ev = Inr h'"
  then obtain h8 h9 j_p4 h10 where
    s9: "jet_loop L wei h8 None (jets ev) = Inr (h9, j_p4)" and
    s10: "fill ''jets_ht'' (case j_p4 of None \<Rightarrow> Inl AttributeError | Some v \<Rightarrow> Inr (pt L v)) wei h9
            = Inr h10"
    unfolding fill_selected_def by (auto simp: ebind_eq_Inr)
  from s9 assms have "j_p4 = None" by simp
  with s10 show False by (simp add: fill_not_Inr_Inl)
qed

lemma fill_selected_no_jets_error:
  assumes present: "observables_present h"
    and nojets: "jets ev = []"
    and etas: "list_all (\<lambda>l. \<not> isl (eta L (p4 L l))) (leptons ev)"
  shows "fill_selected L wei vpt vmass h ev = Inl AttributeError"
proof -
  from fill_present [OF present, of "''wei''" wei 1] obtain h4 where
    h4: "fill ''wei'' (Inr wei) 1 h = Inr h4" "observables_present h4"
    by (auto simp: bins_def)
  from fill_present [OF h4(2), of "''dilep_m''" vmass wei] obtain h5 where
    h5: "fill ''dilep_m'' (Inr vmass) wei h4 = Inr h5" "observables_present h5"
    by (auto simp: bins_def)
  from fill_present [OF h5(2), of "''dilep_pt''" vpt wei] obtain h6 where
    h6: "fill ''dilep_pt'' (Inr vpt) wei h5 = Inr h6" "observables_present h6"
    by (auto simp: bins_def)
  from fill_leptons_ok [OF h6(2), of L wei "leptons ev"] etas obtain h7 where
    h7: "fill_leptons L wei h6 (leptons ev) = Inr h7" "observables_present h7"
    by blast
  from fill_Zs_ok [OF h7(2), of L wei "Zs ev"] obtain h8 where
    h8: "fill_Zs L wei h7 (Zs ev) = Inr h8" "observables_present h8"
    by blast
  have "''jets_ht'' \<in> set (keys h8)"
    using h8(2) by (rule observables_presentD) (simp add: bins_def)
  then have "fill ''jets_ht'' (Inl AttributeError) wei h8 = Inl AttributeError"
    by (simp add: fill_def)
  then show ?thesis
    by (simp add: fill_selected_def h4 h5 h6 h7 h8 nojets)
qed

lemma dilepton_selected_Some:
  "dilepton_selected L ev \<Longrightarrow> \<exists>v. dilepton_p4 L ev = Some v"
  by (auto simp: dilepton_selected_def split: option.splits)

lemma analyze_event_selected:
  assumes sel: "dilepton_selected L ev" and v: "dilepton_p4 L ev = Some v"
  shows "analyze_event L h ev =
      ebind (fill ''nlep'' (Inr (real (length (leptons ev)))) 1 h) (\<lambda>h1.
      ebind (fill ''njet'' (Inr (real (length (jets ev)))) 1 h1) (\<lambda>h2.
      ebind (fill ''njet15'' (Inr (real (length (jets15 L ev)))) 1 h2) (\<lambda>h3.
        case weights ev of [] \<Rightarrow> Inl IndexError
        | wei # _ \<Rightarrow> fill_selected L wei (pt L v) (mass L v) h3 ev)))"
proof -
  from sel v have w: "250 \<le> pt L v" "pt L v \<le> 400" "50 \<le> mass L v" "mass L v \<le> 130"
    and n: "length (leptons ev) = 2"
    by (auto simp: dilepton_selected_def)
  then show ?thesis
    unfolding analyze_event_def Let_def lepton_loop_dilepton_p4 v
    by (simp add: not_less [symmetric])
qed

lemma analyze_event_no_jets:
  assumes "dilepton_selected L ev" and "jets ev = []"
  shows "isl (analyze_event L h ev)"
proof (cases "analyze_event L h ev")
  case (Inl e)
  then show ?thesis by simp
next
  case (Inr h')
  from assms(1) obtain v where v: "dilepton_p4 L ev = Some v"
    using dilepton_selected_Some by blast
  note eq = analyze_event_selected [OF assms(1) v]
  from Inr [unfolded eq] obtain h3 where
    h3: "(case weights ev of [] \<Rightarrow> Inl IndexError
          | wei # _ \<Rightarrow> fill_selected L wei (pt L v) (mass L v) h3 ev) = Inr h'"
    unfolding ebind_eq_Inr by blast
  then obtain wei ws where
    "weights ev = wei # ws" "fill_selected L wei (pt L v) (mass L v) h3 ev = Inr h'"
    by (cases "weights ev") auto
  with fill_selected_no_jets [OF assms(2)] show ?thesis by blast
qed

lemma analyze_event_no_jets_error:
  assumes sel: "dilepton_selected L ev" and nojets: "jets ev = []"
    and present: "observables_present h"
    and w: "weights ev \<noteq> []"
    and etas: "list_all (\<lambda>l. \<not> isl (eta L (p4 L l))) (leptons ev)"
  shows "analyze_event L h ev = Inl AttributeError"
proof -
  from sel obtain v where v: "dilepton_p4 L ev = Some v"
    using dilepton_selected_Some by blast
  note eq = analyze_event_selected [OF sel v]
  from fill_present [OF present, of "''nlep''" "real (length (leptons ev))" 1] obtain h1 where
    h1: "fill ''nlep'' (Inr (real (length (leptons ev)))) 1 h = Inr h1" "observables_present h1"
    by (auto simp: bins_def)
  from fill_present [OF h1(2), of "''njet''" "real (length (jets ev))" 1] obtain h2 where
    h2: "fill ''njet'' (Inr (real (length (jets ev)))) 1 h1 = Inr h2" "observables_present h2"
    by (auto simp: bins_def)
  from fill_present [OF h2(2), of "''njet15''" "real (length (jets15 L ev))" 1] obtain h3 where
    h3: "fill ''njet15'' (Inr (real (length (jets15 L ev)))) 1 h2 = Inr h3" "observables_present h3"
    by (auto simp: bins_def)
  from w obtain wei ws where ws: "weights ev = wei # ws" by (cases "weights ev") auto
  show ?thesis
    unfolding eq
    by (simp add: h1 h2 h3 ws fill_selected_no_jets_error [OF h3(2) nojets etas])
qed

lemma event_loop_fails:
  "Inr ev \<in> set rd \<Longrightarrow> (\<And>h. isl (analyze_event L h ev)) \<Longrightarrow> isl (event_loop L h rd)"
proof (induction rd arbitrary: h)
  case Nil
  then show ?case by simp
next
  case (Cons item rd)
  show ?case
  proof (cases item)
    case (Inl e)
    then show ?thesis by simp
  next
    case (Inr ev')
    show ?thesis
    proof (cases "analyze_event L h ev'")
      case (Inl e)
      with Inr show ?thesis by simp
    next
      case ok: (Inr h1)
      with Cons.prems(2) [of h] Inr have "ev' \<noteq> ev" by auto
      with Cons.prems(1) Inr have "Inr ev \<in> set rd" by auto
      from Cons.IH [OF this Cons.prems(2)] show ?thesis
        by (simp add: Inr ok)
    qed
  qed
qed

lemma fill_selected_ok:
  assumes present: "observables_present h" and ok: "selected_ok L ev"
  shows "\<exists>h'. fill_selected L wei vpt vmass h ev = Inr h' \<and> observables_present h'"
proof -
  from fill_present [OF present, of "''wei''" wei 1] obtain h4 where
    h4: "fill ''wei'' (Inr wei) 1 h = Inr h4" "observables_present h4"
    by (auto simp: bins_def)
  from fill_present [OF h4(2), of "''dilep_m''" vmass wei] obtain h5 where
    h5: "fill ''dilep_m'' (Inr vmass) wei h4 = Inr h5" "observables_present h5"
    by (auto simp: bins_def)
  from fill_present [OF h5(2), of "''dilep_pt''" vpt wei] obtain h6 where
    h6: "fill ''dilep_pt'' (Inr vpt) wei h5 = Inr h6" "observables_present h6"
    by (auto simp: bins_def)
  from fill_leptons_ok [OF h6(2), of L wei "leptons ev"] ok obtain h7 where
    h7: "fill_leptons L wei h6 (leptons ev) = Inr h7" "observables_present h7"
    unfolding selected_ok_def by blast
  from fill_Zs_ok [OF h7(2), of L wei "Zs ev"] obtain h8 where
    h8: "fill_Zs L wei h7 (Zs ev) = Inr h8" "observables_present h8"
    by blast
  from jet_loop_ok [OF h8(2), of L wei None "jets ev"] ok obtain h9 v where
    h9: "jet_loop L wei h8 None (jets ev) = Inr (h9, Some v)" "observables_present h9"
    unfolding selected_ok_def by fastforce
  from fill_present [OF h9(2), of "''jets_ht''" "pt L v" wei] obtain h10 where
    h10: "fill ''jets_ht'' (Inr (pt L v)) wei h9 = Inr h10" "observables_present h10"
    by (auto simp: bins_def)
  from fill_dijet_ok [OF h10(2), of L wei "jets15 L ev"] ok obtain h11 where
    h11: "fill_dijet L wei h10 (jets15 L ev) = Inr h11" "observables_present h11"
    unfolding selected_ok_def by (auto split: if_splits)
  show ?thesis
    by (simp add: fill_selected_def h4 h5 h6 h7 h8 h9 h10 h11)
qed

lemma analyze_event_ok:
  assumes present: "observables_present h" and ok: "event_ok L ev"
  shows "\<exists>h'. analyze_event L h ev = Inr h' \<and> observables_present h'"
proof -
  from fill_present [OF present, of "''nlep''" "real (length (leptons ev))" 1] obtain h1 where
    h1: "fill ''nlep'' (Inr (real (length (leptons ev)))) 1 h = Inr h1" "observables_present h1"
    by (auto simp: bins_def)
  from fill_present [OF h1(2), of "''njet''" "real (length (jets ev))" 1] obtain h2 where
    h2: "fill ''njet'' (Inr (real (length (jets ev)))) 1 h1 = Inr h2" "observables_present h2"
    by (auto simp: bins_def)
  from fill_present [OF h2(2), of "''njet15''" "real (length (jets15 L ev))" 1] obtain h3 where
    h3: "fill ''njet15'' (Inr (real (length (jets15 L ev)))) 1 h2 = Inr h3" "observables_present h3"
    by (auto simp: bins_def)
  show ?thesis
  proof (cases "dilepton_selected L ev")
    case True
    then obtain v where v: "dilepton_p4 L ev = Some v"
      using dilepton_selected_Some by blast
    from True ok v have w: "weights ev \<noteq> []" and sok: "selected_ok L ev"
      by (auto simp: event_ok_def dilepton_selected_def split: if_splits)
    from w obtain wei ws where ws: "weights ev = wei # ws" by (cases "weights ev") auto
    from fill_selected_ok [OF h3(2) sok, of wei "pt L v" "mass L v"]
    show ?thesis
      unfolding analyze_event_selected [OF True v]
      by (simp add: h1 h2 h3 ws)
  next
    case False
    show ?thesis
    proof (cases "length (leptons ev) = 2")
      case n: False
      then show ?thesis
        by (simp add: analyze_event_def Let_def h1 h2 h3)
    next
      case n: True
      with ok obtain v where v: "dilepton_p4 L ev = Some v"
        by (auto simp: event_ok_def split: option.splits)
      with False n have "pt L v < 250 \<or> pt L v > 400 \<or> mass L v < 50 \<or> mass L v > 130"
        by (auto simp: dilepton_selected_def)
      moreover from h1 n have "fill ''nlep'' (Inr 2) 1 h = Inr h1" by simp
      ultimately show ?thesis
        unfolding analyze_event_def Let_def lepton_loop_dilepton_p4 v
        by (auto simp: h1 h2 h3 n)
    qed
  qed
qed

lemma event_loop_ok:
  "observables_present h \<Longrightarrow> list_all (event_ok L) evs \<Longrightarrow>
     \<exists>h'. event_loop L h (map Inr evs) = Inr h'"
proof (induction evs arbitrary: h)
  case Nil
  then show ?case by simp
next
  case (Cons ev evs)
  from analyze_event_ok [OF Cons.prems(1), of L ev] Cons.prems(2) obtain h1 where
    h1: "analyze_event L h ev = Inr h1" "observables_present h1"
    by auto
  from Cons.IH [OF h1(2)] Cons.prems(2) show ?case
    by (simp add: h1)
qed

lemma analyze_ok: "list_all (event_ok L) evs \<Longrightarrow> \<exists>h. analyze L (map Inr evs) = Inr h"
  unfolding analyze_def by (rule event_loop_ok [OF observables_present_setup])

lemma eta_mu_plus: "\<not> isl (eta cartesian (p4 cartesian mu_plus))"
  by (simp add: cartesian_def mu_plus_def)

lemma eta_mu_minus: "\<not> isl (eta cartesian (p4 cartesian mu_minus))"
  by (simp add: cartesian_def mu_minus_def)

lemma eta_gluon: "\<not> isl (eta cartesian (p4 cartesian gluon))"
  by (simp add: cartesian_def gluon_def)

lemma event_ok_zjet: "event_ok cartesian zjet_event"
  by (simp add: event_ok_def selected_ok_def leptons_zjet jets_zjet jets15_zjet dilepton_p4_zjet
      dilepton_selected_zjet eta_mu_plus eta_mu_minus eta_gluon)
     (simp add: zjet_event_def)

lemma reader_events_map_Inr: "reader_events (map Inr evs) = evs"
  by (induction evs) (simp_all add: reader_events_def)

lemma leptons_z: "leptons z_event = [mu_plus, mu_minus]"
  by (simp add: leptons_def z_event_def particle_defs)

lemma jets_z: "jets z_event = []"
  by (simp add: jets_def z_event_def particle_defs)

lemma dilepton_p4_z: "dilepton_p4 cartesian z_event = Some (300, 0, 0, 325)"
  by (simp add: dilepton_p4_def leptons_z p4_sum_def cartesian_def particle_defs sqrt_22500)

lemma dilepton_selected_z: "dilepton_selected cartesian z_event"
  by (simp add: dilepton_selected_def dilepton_p4_z leptons_z)
     (simp add: cartesian_def sqrt_90000 sqrt_15625)

section \<open>vplusjetPDFsyst.py: properties of the selection and of process\<close>

lemma jand_jmap: "jand (jmap P xss) (jmap Q xss) = jmap (\<lambda>x. P x \<and> Q x) xss"
  by (simp add: jand_def jmap_def zip_map_map zip_same_conv_map)

lemma np_mask_map: "np_mask xs (map P xs) = filter P xs"
  by (induction xs) (simp_all add: np_mask_def)

lemma ak_mask_jmap: "ak_mask xss (jmap P xss) = map (filter P) xss"
  by (simp add: ak_mask_def jmap_def zip_map2 zip_same_conv_map np_mask_map)

lemma goodmuon_jmap: "goodmuon muons = jmap passes_goodmuon muons"
  by (simp add: goodmuon_def jand_jmap passes_goodmuon_def [abs_def])

lemma goodelectron_jmap: "goodelectron electrons = jmap passes_goodelectron electrons"
  by (simp add: goodelectron_def jand_jmap passes_goodelectron_def [abs_def])

lemma good_dimuons_rows:
  "good_dimuons K muons =
     map (\<lambda>ms. filter (\<lambda>(a, b). Muon_charge a \<noteq> Muon_charge b \<and> 60 \<le> mumu_mass K a b \<and>
                               mumu_mass K a b < 120) (combinations2 ms)) muons"
proof -
  have "good_dimuons K muons =
      map (filter (\<lambda>x. (case x of (i0, i1) \<Rightarrow> Muon_charge i0 \<noteq> Muon_charge i1) \<and>
                        (case x of (i0, i1) \<Rightarrow> mumu_mass K i0 i1 \<ge> 60) \<and>
                        (case x of (i0, i1) \<Rightarrow> mumu_mass K i0 i1 < 120)))
        (ak_combinations muons)"
    by (simp add: good_dimuons_def Let_def jand_jmap ak_mask_jmap)
  also have "\<dots> = map (\<lambda>ms. filter (\<lambda>(a, b). Muon_charge a \<noteq> Muon_charge b \<and> 60 \<le> mumu_mass K a b \<and>
                               mumu_mass K a b < 120) (combinations2 ms)) muons"
    by (simp add: ak_combinations_def case_prod_unfold)
  finally show ?thesis .
qed

lemma min_list_gt: "xs \<noteq> [] \<Longrightarrow> (c::real) < min_list xs \<longleftrightarrow> list_all (\<lambda>x. c < x) xs"
proof (induction xs rule: min_list.induct)
  case (1 x xs)
  then show ?case by (cases xs) auto
next
  case 2
  then show ?case by simp
qed

lemma isClean_rows:
  "isClean delta_r obj_A obj_B drmin =
     map (\<lambda>(as, bs). map (\<lambda>a. list_all (\<lambda>b. delta_r a b > drmin) bs) as) (zip obj_A obj_B)"
proof -
  have "(case (case bs of [] \<Rightarrow> None | b # bs' \<Rightarrow> Some (min_list (map (delta_r a) bs))) of
           None \<Rightarrow> True | Some x \<Rightarrow> x > drmin) = list_all (\<lambda>b. delta_r a b > drmin) bs"
    for a and bs :: "'b list"
  proof (cases bs)
    case Nil
    then show ?thesis by simp
  next
    case (Cons b bs')
    then have "map (delta_r a) bs \<noteq> []" by simp
    from min_list_gt [OF this, of drmin] Cons show ?thesis
      by (simp add: list_all_iff)
  qed
  then show ?thesis
    by (simp add: isClean_def nearest_metric_def jmap_def Let_def case_prod_unfold)
qed

lemma zip_map_same3: "zip (map f xs) (zip (map g xs) (map h xs)) = map (\<lambda>x. (f x, g x, h x)) xs"
  by (induction xs) simp_all

lemma ak_mask_rows:
  "ak_mask (map f rs) (map (\<lambda>r. map (Q r) (f r)) rs) = map (\<lambda>r. filter (Q r) (f r)) rs"
  by (simp add: ak_mask_def zip_map_map zip_same_conv_map np_mask_map)

lemma jand_rows:
  "jand (map (\<lambda>r. map (P r) (f r)) rs) (map (\<lambda>r. map (Q r) (f r)) rs) =
     map (\<lambda>r. map (\<lambda>x. P r x \<and> Q r x) (f r)) rs"
  by (simp add: jand_def zip_map_map zip_same_conv_map)

lemma isClean_rows_map:
  "isClean delta_r (map f rs) (map g rs) drmin =
     map (\<lambda>r. map (\<lambda>a. list_all (\<lambda>b. delta_r a b > drmin) (g r)) (f r)) rs"
  by (simp add: isClean_rows zip_map_map zip_same_conv_map)

lemma good_jets_rows:
  "good_jets K (map Jet rs) (map good_electrons rs) (map good_muons rs) = map (clean_tight_jets K) rs"
proof -
  let ?tight = "\<lambda>j. Jet_pt j > 30 \<and> \<bar>Jet_eta j\<bar> < 2.5 \<and> Jet_isTight j"
  let ?f = "\<lambda>r. filter ?tight (Jet r)"
  have jets: "ak_mask (map Jet rs)
                   (jand (jmap (\<lambda>j. Jet_pt j > 30) (map Jet rs))
                   (jand (jmap (\<lambda>j. \<bar>Jet_eta j\<bar> < 2.5) (map Jet rs))
                         (jmap Jet_isTight (map Jet rs)))) = map ?f rs"
    by (simp add: jand_jmap ak_mask_jmap comp_def)
  have "good_jets K (map Jet rs) (map good_electrons rs) (map good_muons rs) =
      ak_mask (map ?f rs) (jand (isClean (je_delta_r K) (map ?f rs) (map good_electrons rs) 0.4)
                          (isClean (jm_delta_r K) (map ?f rs) (map good_muons rs) 0.4))"
    unfolding good_jets_def Let_def jets ..
  also have "\<dots> = map (\<lambda>r. filter (\<lambda>j. list_all (\<lambda>e. je_delta_r K j e > 0.4) (good_electrons r) \<and>
                                   list_all (\<lambda>m. jm_delta_r K j m > 0.4) (good_muons r)) (?f r)) rs"
    unfolding isClean_rows_map jand_rows ak_mask_rows ..
  also have "\<dots> = map (clean_tight_jets K) rs"
    by (simp add: clean_tight_jets_def conj_ac cong: conj_cong)
  finally show ?thesis .
qed

lemma full_selection_rows:
  "full_selection K (map Muon rs) (map Electron rs) (map Jet rs) = map (fully_selected K) rs"
proof -
  have mu: "ak_mask (map Muon rs) (goodmuon (map Muon rs)) = map good_muons rs"
    by (simp add: goodmuon_jmap ak_mask_jmap good_muons_def [abs_def])
  have el: "ak_mask (map Electron rs) (goodelectron (map Electron rs)) = map good_electrons rs"
    by (simp add: goodelectron_jmap ak_mask_jmap good_electrons_def [abs_def])
  have pairs: "good_dimuons K (map good_muons rs) = map (dimuon_pairs K) rs"
    by (simp add: good_dimuons_rows dimuon_pairs_def [abs_def] comp_def)
  show ?thesis
    unfolding full_selection_def Let_def mu el pairs good_jets_rows ak_num_def
    by (simp add: zip_map_map zip_same_conv_map fully_selected_def [abs_def] comp_def)
qed

lemma branch_eq_Inr:
  "branch events n c = Inr x \<longleftrightarrow> map_of (unreadable events) n = None \<and> x = c"
  by (auto simp: branch_def split: option.splits)

lemma np_mask_map2: "np_mask (map g rs) (map P rs) = map g (filter P rs)"
  by (induction rs) (simp_all add: np_mask_def)

lemma np_mask_rows: "np_mask rs (map P rs) = filter P rs"
  using np_mask_map2 [of "\<lambda>x. x" rs P] by simp

lemma pdf_fills_zip:
  "pdf_fills K dataset sel p =
     map (\<lambda>(x, w). ([dataset, str p], x, w))
       (zip (concat (map (dilepton_pts K) sel))
            (map (\<lambda>ev. genWeight ev * (2 * (LHEPdfWeight ev ! p))) sel))"
  by (simp add: pdf_fills_def zip_map2 case_prod_unfold)

lemma pdf_loop_step:
  assumes "map_of (unreadable events) ''LHEPdfWeight'' = None"
  shows "pdf_loop events dataset vpts (map genWeight sel) sel (p # ps) h =
     (if list_all (\<lambda>ev. p < length (LHEPdfWeight ev)) sel
      then pdf_loop events dataset vpts (map genWeight sel) sel ps
             (h @ map (\<lambda>(x, w). ([dataset, str p], x, w))
                    (zip vpts (map (\<lambda>ev. genWeight ev * (2 * (LHEPdfWeight ev ! p))) sel)))
      else Inl (LibraryError ''index out of range''))"
proof -
  have w: "map (\<lambda>(w, x). w * x) (zip (map genWeight sel)
           (map (\<lambda>x. 2 * x) (map (\<lambda>ws. ws ! p) (map LHEPdfWeight sel)))) =
        map (\<lambda>ev. genWeight ev * (2 * (LHEPdfWeight ev ! p))) sel"
    by (simp add: zip_map_map zip_same_conv_map comp_def)
  have c: "list_all (\<lambda>ws. p < length ws) (map LHEPdfWeight sel) =
      list_all (\<lambda>ev. p < length (LHEPdfWeight ev)) sel"
    by (simp add: list_all_iff)
  show ?thesis
    unfolding pdf_loop.simps branch_def assms pdf_column_def
    by (simp add: Let_def hist_fill_def w c del: map_map)
qed

lemma pdf_loop_readable:
  assumes "map_of (unreadable events) ''LHEPdfWeight'' = None"
  shows "pdf_loop events dataset (concat (map (dilepton_pts K) sel)) (map genWeight sel) sel ps h =
     (if list_all (\<lambda>p. list_all (\<lambda>ev. p < length (LHEPdfWeight ev)) sel) ps
      then Inr (h @ concat (map (pdf_fills K dataset sel) ps))
      else Inl (LibraryError ''index out of range''))"
proof (induction ps arbitrary: h)
  case Nil
  then show ?case by simp
next
  case (Cons p ps)
  show ?case
    unfolding pdf_loop_step [OF assms] Cons.IH pdf_fills_zip [symmetric]
    by simp
qed

lemma str_values:
  "map str [0..<32] =
    map (\<lambda>c. [c]) ''0123456789'' @
    [''10'', ''11'', ''12'', ''13'', ''14'', ''15'', ''16'', ''17'', ''18'', ''19'', ''20'', ''21'',
     ''22'', ''23'', ''24'', ''25'', ''26'', ''27'', ''28'', ''29'', ''30'', ''31'']"
  by (simp add: upt_rec str.simps)

lemma str_inj: "p < 32 \<Longrightarrow> q < 32 \<Longrightarrow> str p = str q \<Longrightarrow> p = q"
proof -
  have d: "distinct (map str [0..<32])"
    unfolding str_values by simp
  assume "p < 32" "q < 32" "str p = str q"
  with d show ?thesis
    by (auto simp: distinct_map inj_on_def)
qed

lemma str_not_Default:
  assumes "p < 32"
  shows "str p \<noteq> ''Default''"
proof -
  have "''Default'' \<notin> set (map str [0..<32])"
    unfolding str_values by simp
  moreover from assms have "str p \<in> set (map str [0..<32])"
    by simp
  ultimately show ?thesis by metis
qed

lemma ak_sum_jmap: "ak_sum (jmap P xss) = map (\<lambda>xs. length (filter P xs)) xss"
proof -
  have "length (filter id (map P xs)) = length (filter P xs)" for xs
    by (induction xs) simp_all
  then show ?thesis by (simp add: ak_sum_def jmap_def)
qed


lemma process_readable:
  assumes d: "map_of (metadata events) ''dataset'' = Some dataset"
    and r: "list_all (\<lambda>n. map_of (unreadable events) n = None) accesses"
  shows "process K self events =
     (if list_all (\<lambda>p. list_all (\<lambda>ev. p < length (LHEPdfWeight ev)) (selected_rows K events)) [0..<32]
      then Inr (process_output K dataset (rows events))
      else Inl (LibraryError ''index out of range''))"
proof -
  from r have r': "map_of (unreadable events) ''LHEPdfWeight'' = None"
    "map_of (unreadable events) ''LHE'' = None"
    "map_of (unreadable events) ''genWeight'' = None"
    "map_of (unreadable events) ''Muon'' = None"
    "map_of (unreadable events) ''Electron'' = None"
    "map_of (unreadable events) ''MET'' = None"
    "map_of (unreadable events) ''Jet'' = None"
    by (simp_all add: accesses_def)
  have br: "branch events ''LHEPdfWeight'' c1 = Inr c1" "branch events ''LHE'' c2 = Inr c2"
    "branch events ''genWeight'' c3 = Inr c3" "branch events ''Muon'' c4 = Inr c4"
    "branch events ''Electron'' c5 = Inr c5" "branch events ''MET'' c6 = Inr c6"
    "branch events ''Jet'' c7 = Inr c7" for c1 c2 c3 c4 c5 c6 c7
    by (simp_all add: branch_def r')
  have mu: "ak_mask (map Muon (rows events)) (goodmuon (map Muon (rows events))) =
      map good_muons (rows events)"
    by (simp add: goodmuon_jmap ak_mask_jmap good_muons_def [abs_def])
  have el: "ak_mask (map Electron (rows events)) (goodelectron (map Electron (rows events))) =
      map good_electrons (rows events)"
    by (simp add: goodelectron_jmap ak_mask_jmap good_electrons_def [abs_def])
  have pairs: "good_dimuons K (map good_muons (rows events)) = map (dimuon_pairs K) (rows events)"
    by (simp add: good_dimuons_rows dimuon_pairs_def [abs_def] comp_def)
  have nmu: "ak_sum (goodmuon (map Muon (rows events))) =
      map (\<lambda>ev. length (good_muons ev)) (rows events)"
    by (simp add: goodmuon_jmap ak_sum_jmap good_muons_def comp_def)
  have vpt: "ak_flatten (np_mask (jmap (\<lambda>(i0, i1). mumu_pt K i0 i1) (map (dimuon_pairs K) (rows events)))
        (map (fully_selected K) (rows events))) =
      concat (map (dilepton_pts K) (selected_rows K events))"
    by (simp add: jmap_def ak_flatten_def np_mask_map2 selected_rows_def dilepton_pts_def [abs_def]
        comp_def)
  have vmass: "ak_flatten (np_mask (jmap (\<lambda>(i0, i1). mumu_mass K i0 i1) (map (dimuon_pairs K) (rows events)))
        (map (fully_selected K) (rows events))) =
      concat (map (dilepton_masses K) (selected_rows K events))"
    by (simp add: jmap_def ak_flatten_def np_mask_map2 selected_rows_def dilepton_masses_def [abs_def]
        comp_def)
  have sel: "np_mask (rows events) (map (fully_selected K) (rows events)) = selected_rows K events"
    by (simp add: np_mask_rows selected_rows_def)
  have jsel: "np_mask (map (clean_tight_jets K) (rows events)) (map (fully_selected K) (rows events)) =
      map (clean_tight_jets K) (selected_rows K events)"
    by (simp add: np_mask_map2 selected_rows_def)
  have idn: "identity acc =
     \<lparr>out_LHE_Vpt = [], out_wei = [], out_nlep = [], out_dilep_m = [], out_njet15 = [],
      out_dijet_dr = [], out_dijet_m = [], out_dijet_pt = [], out_dilep_pt = [],
      out_cutflow = (\<lambda>dataset k. 0), out_sumw = (\<lambda>dataset. 0)\<rparr>" for acc
    by (simp add: identity_def)
  show ?thesis
    unfolding process_def metadata_get_def d br ebind_Inr option.case idn
    apply (simp only: Let_def dict_accumulator.simps)
    apply (simp only: full_selection_rows mu el pairs nmu good_jets_rows ak_num_def vpt vmass sel jsel
      pdf_loop_readable [OF r'(1)] br ebind_Inr)
    apply (simp add: process_output_def Let_def selected_rows_def comp_def
        hist_fill_def hist_fill1_def ebind_def)
    done
qed

lemma ebind_weak_cong: "m = m' \<Longrightarrow> ebind m f = ebind m' f"
  by simp

lemma process_unreadable:
  assumes "first_failure events = Some e"
  shows "process K self events = Inl e"
proof (cases "map_of (metadata events) ''dataset''")
  case None
  with assms show ?thesis
    by (simp add: first_failure_def process_def metadata_get_def Let_def
        cong: let_weak_cong ebind_weak_cong)
next
  case (Some d)
  with assms have "(case filter (\<lambda>n. map_of (unreadable events) n \<noteq> None) accesses of
            [] \<Rightarrow> None
          | n # _ \<Rightarrow> map_of (unreadable events) n) = Some e"
    by (simp add: first_failure_def)
  then show ?thesis
    unfolding accesses_def
    by (simp add: process_def metadata_get_def Some branch_def Let_def
        split: if_splits cong: let_weak_cong ebind_weak_cong)
qed

lemma sqrt_2025: "sqrt 2025 = 45"
  by (rule real_sqrt_unique) simp_all

lemma sqrt_8100: "sqrt 8100 = 90"
  by (rule real_sqrt_unique) simp_all

lemma delta_r_ge: "\<bar>eta1 - eta2\<bar> \<le> eta_phi_delta_r eta1 phi1 eta2 phi2"
proof -
  have "\<bar>eta1 - eta2\<bar> = sqrt ((eta1 - eta2) * (eta1 - eta2))"
    by simp
  also have "\<dots> \<le> eta_phi_delta_r eta1 phi1 eta2 phi2"
    unfolding eta_phi_delta_r_def by (rule real_sqrt_le_mono) simp
  finally show ?thesis .
qed

lemma good_muons_dy: "good_muons dy_event = [muon1, muon2]"
  by (simp add: good_muons_def dy_event_def passes_goodmuon_def muon1_def muon2_def)

lemma good_electrons_dy: "good_electrons dy_event = []"
  by (simp add: good_electrons_def dy_event_def)

lemma mumu_mass_dy: "mumu_mass ptetaphim muon1 muon2 = 90"
  by (simp add: ptetaphim_def cartesian_def xyzt_def muon1_def muon2_def sqrt_2025 sqrt_8100)

lemma mumu_pt_dy: "mumu_pt ptetaphim muon1 muon2 = 0"
  by (simp add: ptetaphim_def cartesian_def xyzt_def muon1_def muon2_def)

lemma dimuon_pairs_dy: "dimuon_pairs ptetaphim dy_event = [(muon1, muon2)]"
  by (simp add: dimuon_pairs_def good_muons_dy mumu_mass_dy) (simp add: muon1_def muon2_def)

lemma jm_far:
  "\<bar>Jet_eta j - Muon_eta m\<bar> = 2 \<Longrightarrow> jm_delta_r ptetaphim j m > 0.4"
  using delta_r_ge [of "Jet_eta j" "Muon_eta m" "Jet_phi j" "Muon_phi m"]
  by (simp add: ptetaphim_def)

lemma clean_tight_jets_dy: "clean_tight_jets ptetaphim dy_event = [jet1, jet2]"
proof -
  have "jm_delta_r ptetaphim jet1 muon1 > 0.4" "jm_delta_r ptetaphim jet1 muon2 > 0.4"
    "jm_delta_r ptetaphim jet2 muon1 > 0.4" "jm_delta_r ptetaphim jet2 muon2 > 0.4"
    by (rule jm_far, simp add: jet1_def jet2_def muon1_def muon2_def)+
  then show ?thesis
    by (simp add: clean_tight_jets_def good_muons_dy good_electrons_dy)
       (simp add: dy_event_def jet1_def jet2_def)
qed

lemma fully_selected_dy: "fully_selected ptetaphim dy_event"
  by (simp add: fully_selected_def dimuon_pairs_dy clean_tight_jets_dy)

lemma selected_rows_dy: "selected_rows ptetaphim dy_chunk = [dy_event]"
  by (simp add: selected_rows_def dy_chunk_def fully_selected_dy)

lemma process_dy:
  "process ptetaphim Processor dy_chunk = Inr (process_output ptetaphim ''DY'' [dy_event])"
proof -
  have d: "map_of (metadata dy_chunk) ''dataset'' = Some ''DY''"
    by (simp add: dy_chunk_def)
  have r: "list_all (\<lambda>n. map_of (unreadable dy_chunk) n = None) accesses"
    by (simp add: dy_chunk_def accesses_def)
  have p: "list_all (\<lambda>p. list_all (\<lambda>ev. p < length (LHEPdfWeight ev)) (selected_rows ptetaphim dy_chunk))
             [0..<32]"
    by (simp add: selected_rows_dy list_all_iff) (simp add: dy_event_def)
  from process_readable [OF d r, of ptetaphim Processor] p show ?thesis
    by (simp add: dy_chunk_def)
qed

lemma category_fills_append:
  "category_fills cs (h @ h') = category_fills cs h @ category_fills cs h'"
  by (simp add: category_fills_def)

lemma category_fills_concat:
  "category_fills cs (concat hs) = concat (map (category_fills cs) hs)"
  by (induction hs) (simp_all add: category_fills_def)

lemma category_fills_hist_fill:
  "category_fills cs (hist_fill cs' xs ws []) = (if cs = cs' then zip xs ws else [])"
proof -
  have "map snd (map (\<lambda>(x, w). (cs', x, w)) zs) = zs" for zs :: "('a \<times> real) list"
    by (induction zs) auto
  then show ?thesis
    by (auto simp: category_fills_def hist_fill_def filter_map comp_def case_prod_unfold)
qed

lemma pdf_fills_hist_fill:
  "pdf_fills K dataset sel p =
     hist_fill [dataset, str p] (concat (map (dilepton_pts K) sel))
       (map (\<lambda>ev. genWeight ev * (2 * (LHEPdfWeight ev ! p))) sel) []"
  by (simp add: pdf_fills_zip hist_fill_def)

lemma concat_single:
  "distinct qs \<Longrightarrow> p \<in> set qs \<Longrightarrow> concat (map (\<lambda>q. if q = p then X else []) qs) = X"
proof (induction qs)
  case Nil
  then show ?case by simp
next
  case (Cons q qs)
  show ?case
  proof (cases "q = p")
    case True
    with Cons.prems have "p \<notin> set qs" by simp
    then have "concat (map (\<lambda>q. if q = p then X else []) qs) = []"
      by (induction qs) auto
    with True show ?thesis by simp
  next
    case False
    with Cons show ?thesis by simp
  qed
qed

lemma category_fills_pdf:
  assumes "p < 32"
  shows "category_fills [dataset, str p]
       (hist_fill [dataset, ''Default''] xs ws [] @ concat (map (pdf_fills K dataset sel) [0..<32])) =
     zip (concat (map (dilepton_pts K) sel)) (map (\<lambda>ev. genWeight ev * (2 * (LHEPdfWeight ev ! p))) sel)"
proof -
  let ?X = "zip (concat (map (dilepton_pts K) sel))
              (map (\<lambda>ev. genWeight ev * (2 * (LHEPdfWeight ev ! p))) sel)"
  have a: "category_fills [dataset, str p] (hist_fill [dataset, ''Default''] xs ws []) = []"
    using str_not_Default [OF assms] by (simp add: category_fills_hist_fill)
  have b: "map (\<lambda>q. category_fills [dataset, str p] (pdf_fills K dataset sel q)) [0..<32] =
      map (\<lambda>q. if q = p then ?X else []) [0..<32]"
  proof (rule map_cong [OF refl])
    fix q assume "q \<in> set [0..<32]"
    then have q: "q < 32" by simp
    have "str p = str q \<longleftrightarrow> q = p"
      using str_inj [OF assms q] by auto
    then show "category_fills [dataset, str p] (pdf_fills K dataset sel q) =
        (if q = p then ?X else [])"
      unfolding pdf_fills_hist_fill category_fills_hist_fill by simp
  qed
  have c: "concat (map (\<lambda>q. if q = p then ?X else []) [0..<32]) = ?X"
    by (rule concat_single) (use assms in simp_all)
  have "category_fills [dataset, str p]
       (hist_fill [dataset, ''Default''] xs ws [] @ concat (map (pdf_fills K dataset sel) [0..<32])) =
     concat (map (\<lambda>q. category_fills [dataset, str p] (pdf_fills K dataset sel q)) [0..<32])"
    unfolding category_fills_append category_fills_concat a map_map comp_def by simp
  also have "\<dots> = ?X"
    unfolding b by (rule c)
  finally show ?thesis .
qed

lemma first_failure_None:
  assumes "first_failure events = None"
  shows "\<exists>d. map_of (metadata events) ''dataset'' = Some d"
    and "list_all (\<lambda>n. map_of (unreadable events) n = None) accesses"
proof -
  from assms show "\<exists>d. map_of (metadata events) ''dataset'' = Some d"
    by (auto simp: first_failure_def split: option.splits)
  have "filter (\<lambda>n. map_of (unreadable events) n \<noteq> None) accesses = []"
  proof (cases "filter (\<lambda>n. map_of (unreadable events) n \<noteq> None) accesses")
    case Nil
    then show ?thesis .
  next
    case (Cons n ns)
    then have "n \<in> set (filter (\<lambda>n. map_of (unreadable events) n \<noteq> None) accesses)"
      by simp
    then have "map_of (unreadable events) n \<noteq> None" by simp
    moreover from assms Cons have "map_of (unreadable events) n = None"
      by (simp add: first_failure_def split: option.splits)
    ultimately show ?thesis by simp
  qed
  then show "list_all (\<lambda>n. map_of (unreadable events) n = None) accesses"
    by (simp add: filter_empty_conv list_all_iff)
qed

lemma pdf_ok_iff:
  "list_all (\<lambda>p. list_all (\<lambda>ev. p < length (LHEPdfWeight ev)) sel) [0..<32] \<longleftrightarrow>
   list_all (\<lambda>ev. 32 \<le> length (LHEPdfWeight ev)) sel"
proof -
  have "(\<forall>p<32. p < n) \<longleftrightarrow> 32 \<le> n" for n :: nat
  proof
    assume "\<forall>p<32. p < n"
    then have "31 < n" by simp
    then show "32 \<le> n" by simp
  qed auto
  then show ?thesis
    by (auto simp: list_all_iff)
qed

lemma process_Inr:
  assumes "process K self events = Inr out"
    and "map_of (metadata events) ''dataset'' = Some dataset"
  shows "out = process_output K dataset (rows events)"
    and "list_all (\<lambda>ev. 32 \<le> length (LHEPdfWeight ev)) (selected_rows K events)"
proof -
  have ff: "first_failure events = None"
  proof (cases "first_failure events")
    case (Some e)
    from process_unreadable [OF this, of K self] assms(1) show ?thesis by simp
  qed
  from process_readable [OF assms(2) first_failure_None(2) [OF ff], of K self] assms(1)
  show "out = process_output K dataset (rows events)"
    and "list_all (\<lambda>ev. 32 \<le> length (LHEPdfWeight ev)) (selected_rows K events)"
    by (auto simp: pdf_ok_iff split: if_splits)
qed

lemma dilepton_pts_selected:
  "length (concat (map (dilepton_pts K) (filter (fully_selected K) rs))) =
     length (filter (fully_selected K) rs)"
proof (induction rs)
  case Nil
  then show ?case by simp
next
  case (Cons ev rs)
  have "length (dilepton_pts K ev) = 1" if "fully_selected K ev"
    using that by (simp add: dilepton_pts_def fully_selected_def)
  with Cons show ?case by simp
qed

lemma dilepton_pts_dy: "dilepton_pts ptetaphim dy_event = [0]"
  by (simp add: dilepton_pts_def dimuon_pairs_dy mumu_pt_dy)

lemma sqrt_900: "sqrt 900 = 30"
  by (rule real_sqrt_unique) simp_all

lemma sqrt_3600: "sqrt 3600 = 60"
  by (rule real_sqrt_unique) simp_all

lemma good_muons_soft: "good_muons soft_event = [soft_muon1, soft_muon2]"
  by (simp add: good_muons_def soft_event_def passes_goodmuon_def soft_muon1_def soft_muon2_def)

lemma good_electrons_soft: "good_electrons soft_event = []"
  by (simp add: good_electrons_def soft_event_def)

lemma mumu_mass_soft: "mumu_mass ptetaphim soft_muon1 soft_muon2 = 60"
  by (simp add: ptetaphim_def cartesian_def xyzt_def soft_muon1_def soft_muon2_def sqrt_900 sqrt_3600)

lemma dimuon_pairs_soft: "dimuon_pairs ptetaphim soft_event = [(soft_muon1, soft_muon2)]"
  by (simp add: dimuon_pairs_def good_muons_soft mumu_mass_soft)
     (simp add: soft_muon1_def soft_muon2_def)

lemma clean_tight_jets_soft: "clean_tight_jets ptetaphim soft_event = [jet1, jet2]"
proof -
  have "jm_delta_r ptetaphim jet1 soft_muon1 > 0.4" "jm_delta_r ptetaphim jet1 soft_muon2 > 0.4"
    "jm_delta_r ptetaphim jet2 soft_muon1 > 0.4" "jm_delta_r ptetaphim jet2 soft_muon2 > 0.4"
    by (rule jm_far, simp add: jet1_def jet2_def soft_muon1_def soft_muon2_def)+
  then show ?thesis
    by (simp add: clean_tight_jets_def good_muons_soft good_electrons_soft)
       (simp add: soft_event_def jet1_def jet2_def)
qed

lemma fully_selected_soft: "fully_selected ptetaphim soft_event"
  by (simp add: fully_selected_def dimuon_pairs_soft clean_tight_jets_soft)

lemma lead_muon_pt_soft: "lead_muon_pt [Muon soft_event] = [Some False]"
  by (simp add: lead_muon_pt_def goodmuon_jmap ak_mask_jmap ak_firsts_def
      good_muons_soft [unfolded good_muons_def])
     (simp add: soft_muon1_def)

lemma event_loop_append:
  "event_loop L h (pre @ rest) =
     (case event_loop L h pre of Inl e \<Rightarrow> Inl e | Inr h1 \<Rightarrow> event_loop L h1 rest)"
  by (induction pre arbitrary: h) (auto split: sum.splits)

section \<open>The plots and the command line: lemmas\<close>

lemma save_images_Nil [simp]: "save_images [] fs = fs"
  by (simp add: save_images_def)

lemma save_images_snoc:
  "save_images (imgs @ [(p, img)]) fs = savefig p img (save_images imgs fs)"
  by (simp add: save_images_def)

lemma save_images_fields:
  "files (save_images imgs fs) = files fs ++ image_files imgs"
  "writes (save_images imgs fs) = writes fs @ map fst imgs"
  "dirs (save_images imgs fs) = dirs fs"
  "reads (save_images imgs fs) = reads fs"
proof (induction imgs rule: rev_induct)
  case Nil
  {
    case 1 show ?case by (simp add: image_files_def)
  next
    case 2 show ?case by simp
  next
    case 3 show ?case by simp
  next
    case 4 show ?case by simp
  }
next
  case (snoc x imgs)
  obtain p img where x: "x = (p, img)" by (cases x)
  {
    case 1
    show ?case
      by (simp add: x save_images_snoc savefig_def snoc.IH(1) image_files_def fun_eq_iff map_add_def)
  next
    case 2 show ?case by (simp add: x save_images_snoc savefig_def snoc.IH(2))
  next
    case 3 show ?case by (simp add: x save_images_snoc savefig_def snoc.IH(3))
  next
    case 4 show ?case by (simp add: x save_images_snoc savefig_def snoc.IH(4))
  }
qed

lemma lhe_plot_images:
  "foldl (\<lambda>fs (observable, histogram). savefig (png_path outdir observable) (plot histogram) fs)
     fs histograms = save_images (lhe_images plot outdir histograms) fs"
  by (induction histograms arbitrary: fs)
     (simp_all add: save_images_def lhe_images_def case_prod_unfold)

lemma vpj_plot_images:
  "foldl (\<lambda>fs (observable, histogram).
            if is_Hist P histogram then
              savefig (png_path outdir observable)
                (if observable = ''dilep_pt'' then plotgrid P histogram
                 else plot1d P histogram) fs
            else fs) fs histograms = save_images (vpj_images P outdir histograms) fs"
  by (induction histograms arbitrary: fs)
     (simp_all add: save_images_def vpj_images_def case_prod_unfold)

lemma png_path_not_pkl: "png_path outdir observable \<noteq> pkl_path outdir"
proof
  assume "png_path outdir observable = pkl_path outdir"
  then have "last (png_path outdir observable) = last (pkl_path outdir)" by simp
  then show False by (simp add: png_path_def pkl_path_def)
qed

lemma png_path_inj: "png_path outdir a = png_path outdir b \<longleftrightarrow> a = b"
  by (simp add: png_path_def)

lemma image_files_dom:
  "image_files imgs p = Some v \<Longrightarrow> p \<in> set (map fst imgs)"
proof -
  assume "image_files imgs p = Some v"
  then have "(p, v) \<in> set (rev (map (\<lambda>(p, img). (p, Png img)) imgs))"
    unfolding image_files_def by (rule map_of_SomeD)
  then show ?thesis by force
qed

lemma replot_files:
  fixes f :: "string \<Rightarrow> ('c, 'i) stored option"
  assumes "pk \<notin> set (map fst imgs)"
  shows "(f ++ image_files imgs)(pk \<mapsto> c) ++ image_files imgs = (f ++ image_files imgs)(pk \<mapsto> c)"
proof
  fix p
  show "((f ++ image_files imgs)(pk \<mapsto> c) ++ image_files imgs) p =
      ((f ++ image_files imgs)(pk \<mapsto> c)) p"
  proof (cases "image_files imgs p :: ('c, 'i) stored option")
    case None
    then show ?thesis by (cases "p = pk") (simp_all add: map_add_def)
  next
    case (Some v)
    from image_files_dom [OF this] assms have "p \<noteq> pk" by auto
    with Some show ?thesis by (simp add: map_add_def)
  qed
qed

lemma image_files_distinct:
  assumes "distinct (map fst imgs)" and "(p, img) \<in> set imgs"
  shows "image_files imgs p = Some (Png img)"
proof -
  have e: "map fst (map (\<lambda>(p, img). (p, Png img)) imgs) = map fst imgs"
    by (simp add: case_prod_unfold comp_def)
  have d: "distinct (map fst (rev (map (\<lambda>(p, img). (p, Png img)) imgs)))"
    unfolding rev_map [symmetric] e distinct_rev by (rule assms(1))
  from assms(2) have "(p, Png img) \<in> set (rev (map (\<lambda>(p, img). (p, Png img)) imgs))"
    by force
  with d show ?thesis
    unfolding image_files_def by (rule map_of_is_SomeI)
qed

lemma path_exists_reads [simp]: "path_exists (fs\<lparr>reads := r\<rparr>) p = path_exists fs p"
  by (simp add: path_exists_def)

lemma lhe_plot_True:
  "path_exists fs (lhe_outdir opt) \<Longrightarrow>
     lhe_plot plot opt h True fs = save_images (lhe_images plot (lhe_outdir opt) h) fs"
  by (simp add: lhe_plot_def Let_def lhe_plot_images)

lemma vpj_plot_True:
  "path_exists fs outdir \<Longrightarrow>
     vpj_plot P h outdir True fs = save_images (vpj_images P outdir h) fs"
  by (simp add: vpj_plot_def Let_def vpj_plot_images)

lemma plot_files:
  fixes fs :: "('c, 'i) filesystem"
  assumes pk: "pk \<notin> set (map fst imgs)"
    and fs1: "fs1 = pkl_dump c pk (save_images imgs
                (if \<not> path_exists fs outdir then makedirs outdir fs else fs))"
  shows "files fs1 = (files fs ++ image_files imgs)(pk \<mapsto> Pkl c)"
    and "writes fs1 = writes fs @ map fst imgs @ [pk]"
    and "path_exists fs1 outdir"
    and "save_images imgs (fs1\<lparr>reads := reads fs1 @ [pk]\<rparr>) =
      fs1\<lparr>writes := writes fs1 @ map fst imgs, reads := reads fs1 @ [pk]\<rparr>"
proof -
  let ?fs0 = "if \<not> path_exists fs outdir then makedirs outdir fs else fs"
  have f0: "files ?fs0 = files fs" "writes ?fs0 = writes fs"
    by (simp_all add: makedirs_def)
  show f1: "files fs1 = (files fs ++ image_files imgs)(pk \<mapsto> Pkl c)"
    unfolding fs1 by (simp add: pkl_dump_def save_images_fields f0 del: if_not_P)
  show "writes fs1 = writes fs @ map fst imgs @ [pk]"
    unfolding fs1 by (simp add: pkl_dump_def save_images_fields f0)
  have "path_exists ?fs0 outdir"
    by (simp add: path_exists_def makedirs_def)
  then show "path_exists fs1 outdir"
    unfolding fs1
    by (auto simp: path_exists_def pkl_dump_def save_images_fields map_add_def
        split: option.splits if_splits)
  show "save_images imgs (fs1\<lparr>reads := reads fs1 @ [pk]\<rparr>) =
      fs1\<lparr>writes := writes fs1 @ map fst imgs, reads := reads fs1 @ [pk]\<rparr>"
    by (rule filesystem.equality)
       (simp_all add: save_images_fields f1 replot_files [OF pk])
qed

lemma pkl_not_in_lhe_images: "pkl_path outdir \<notin> set (map fst (lhe_images plot outdir h))"
  by (auto simp: lhe_images_def png_path_not_pkl [symmetric])

lemma pkl_not_in_vpj_images: "pkl_path outdir \<notin> set (map fst (vpj_images P outdir h))"
  by (auto simp: vpj_images_def png_path_not_pkl [symmetric])

lemma lhe_plot_unfold:
  "lhe_plot plot opt h fromPickles fs =
     (let fs2 = save_images (lhe_images plot (lhe_outdir opt) h)
                  (if \<not> path_exists fs (lhe_outdir opt) then makedirs (lhe_outdir opt) fs else fs)
      in if \<not> fromPickles then pkl_dump h (pkl_path (lhe_outdir opt)) fs2 else fs2)"
  by (simp add: lhe_plot_def Let_def lhe_plot_images)

lemma vpj_plot_unfold:
  "vpj_plot P h outdir fromPickles fs =
     (let fs2 = save_images (vpj_images P outdir h)
                  (if \<not> path_exists fs outdir then makedirs outdir fs else fs)
      in if \<not> fromPickles then pkl_dump h (pkl_path outdir) fs2 else fs2)"
  by (simp add: vpj_plot_def Let_def vpj_plot_images)

lemma lhe_images_paths:
  "map fst (lhe_images plot outdir h) = map (png_path outdir) (keys h)"
  by (simp add: lhe_images_def keys_def case_prod_unfold)

lemma vpj_images_paths:
  "map fst (vpj_images P outdir h) =
     map (png_path outdir) (map fst (filter (\<lambda>(observable, histogram). is_Hist P histogram) h))"
  by (simp add: vpj_images_def case_prod_unfold)

lemma plot_roundtrip_core:
  "(let outdir = lhe_outdir opt;
        fs1 = lhe_plot plot opt h False fs
    in files fs1 = (files fs ++ image_files (lhe_images plot outdir h))(pkl_path outdir \<mapsto> Pkl h) \<and>
       writes fs1 = writes fs @ map (png_path outdir) (keys h) @ [pkl_path outdir] \<and>
       lhe_plotFromPickles plot opt (pkl_path outdir) fs1 =
         Inr (fs1\<lparr>writes := writes fs1 @ map (png_path outdir) (keys h),
                  reads := reads fs1 @ [pkl_path outdir]\<rparr>)) \<and>
   (let fs1 = vpj_plot P c outdir' False fs';
        hists = filter (\<lambda>(observable, histogram). is_Hist P histogram) c
    in files fs1 = (files fs' ++ image_files (vpj_images P outdir' c))(pkl_path outdir' \<mapsto> Pkl c) \<and>
       writes fs1 = writes fs' @ map (png_path outdir') (map fst hists) @ [pkl_path outdir'] \<and>
       vpj_plotFromPickles P (pkl_path outdir') outdir' fs1 =
         Inr (fs1\<lparr>writes := writes fs1 @ map (png_path outdir') (map fst hists),
                  reads := reads fs1 @ [pkl_path outdir']\<rparr>))"
proof -
  have 1: "lhe_plot plot opt h False fs =
      pkl_dump h (pkl_path (lhe_outdir opt)) (save_images (lhe_images plot (lhe_outdir opt) h)
        (if \<not> path_exists fs (lhe_outdir opt) then makedirs (lhe_outdir opt) fs else fs))"
    by (simp add: lhe_plot_unfold)
  have 2: "vpj_plot P c outdir' False fs' =
      pkl_dump c (pkl_path outdir') (save_images (vpj_images P outdir' c)
        (if \<not> path_exists fs' outdir' then makedirs outdir' fs' else fs'))"
    by (simp add: vpj_plot_unfold)
  note a = plot_files [OF pkl_not_in_lhe_images 1]
  note b = plot_files [OF pkl_not_in_vpj_images 2]
  have l: "lhe_plotFromPickles plot opt (pkl_path (lhe_outdir opt)) (lhe_plot plot opt h False fs) =
      Inr ((lhe_plot plot opt h False fs)
             \<lparr>writes := writes (lhe_plot plot opt h False fs) @ map (png_path (lhe_outdir opt)) (keys h),
              reads := reads (lhe_plot plot opt h False fs) @ [pkl_path (lhe_outdir opt)]\<rparr>)"
    unfolding lhe_plotFromPickles_def pkl_load_def a(1)
    by (simp add: lhe_plot_True a(3) a(4) lhe_images_paths)
  have v: "vpj_plotFromPickles P (pkl_path outdir') outdir' (vpj_plot P c outdir' False fs') =
      Inr ((vpj_plot P c outdir' False fs')
             \<lparr>writes := writes (vpj_plot P c outdir' False fs') @
                  map (png_path outdir') (map fst (filter (\<lambda>(observable, histogram). is_Hist P histogram) c)),
              reads := reads (vpj_plot P c outdir' False fs') @ [pkl_path outdir']\<rparr>)"
    unfolding vpj_plotFromPickles_def pkl_load_def b(1)
    by (simp add: vpj_plot_True b(3) b(4) vpj_images_paths)
  show ?thesis
    unfolding Let_def
    using a(1,2) b(1,2) l v
    by (simp add: lhe_images_paths vpj_images_paths)
qed





lemma save_images_makedirs_fields:
  "writes (save_images imgs (if \<not> path_exists fs outdir then makedirs outdir fs else fs)) =
     writes fs @ map fst imgs"
  "reads (save_images imgs (if \<not> path_exists fs outdir then makedirs outdir fs else fs)) = reads fs"
  by (simp_all add: save_images_fields makedirs_def)

lemma lhe_plot_logs:
  "writes (lhe_plot plot opt h fromPickles fs) =
     writes fs @ map (png_path (lhe_outdir opt)) (keys h) @
       (if fromPickles then [] else [pkl_path (lhe_outdir opt)])"
  "reads (lhe_plot plot opt h fromPickles fs) = reads fs"
  by (simp_all add: lhe_plot_unfold Let_def pkl_dump_def save_images_makedirs_fields
      lhe_images_paths)

lemma vpj_plot_logs:
  "writes (vpj_plot P h outdir fromPickles fs) =
     writes fs @ map (png_path outdir) (map fst (filter (\<lambda>(observable, histogram). is_Hist P histogram) h)) @
       (if fromPickles then [] else [pkl_path outdir])"
  "reads (vpj_plot P h outdir fromPickles fs) = reads fs"
  by (simp_all add: vpj_plot_unfold Let_def pkl_dump_def save_images_makedirs_fields
      vpj_images_paths)






lemma lhe_image_content:
  assumes "distinct (keys h)" and "(observable, histogram) \<in> set h"
  shows "image_files (lhe_images plot outdir h) (png_path outdir observable) =
     Some (Png (plot histogram))"
proof (rule image_files_distinct)
  have "inj_on (png_path outdir) (set (keys h))"
    by (simp add: inj_on_def png_path_inj)
  with assms(1) show "distinct (map fst (lhe_images plot outdir h))"
    by (simp add: lhe_images_paths distinct_map)
  from assms(2) show "(png_path outdir observable, plot histogram) \<in> set (lhe_images plot outdir h)"
    by (force simp: lhe_images_def)
qed

lemma vpj_image_content:
  assumes "distinct (map fst c)" and "(observable, histogram) \<in> set c" and "is_Hist P histogram"
  shows "image_files (vpj_images P outdir c) (png_path outdir observable) =
     Some (Png (if observable = ''dilep_pt'' then plotgrid P histogram else plot1d P histogram))"
proof (rule image_files_distinct)
  have "distinct (map (png_path outdir) xs)" if "distinct xs" for xs
    using that by (simp add: distinct_map inj_on_def png_path_inj)
  moreover from assms(1) have "distinct (map fst (filter (\<lambda>(observable, histogram). is_Hist P histogram) c))"
    by (rule distinct_map_filter)
  ultimately show "distinct (map fst (vpj_images P outdir c))"
    by (simp only: vpj_images_paths)
  from assms(2,3) show "(png_path outdir observable,
      if observable = ''dilep_pt'' then plotgrid P histogram else plot1d P histogram)
        \<in> set (vpj_images P outdir c)"
    by (force simp: vpj_images_def)
qed



section \<open>lhePlot.py: the claims\<close>

text \<open>
  C2. When \<open>analyze\<close> returns, the fills of \<open>dilep_m\<close> and \<open>dilep_pt\<close> are, in event
  order, exactly one fill per event that has exactly two charged leptons and whose
  four-momentum sum over the leptons with \<open>pt \<ge> 1\<close> has pt in \<open>[250, 400]\<close> and mass in
  \<open>[50, 130]\<close>: the mass, respectively the pt, of that sum, weighted with \<open>event.weights[0]\<close>.
  Every other event contributes nothing to the two histograms.
\<close>

theorem analyze_dilepton_fills:
  "analyze L rd = Inr h \<Longrightarrow>
     entries_of h ''dilep_m'' = concat (map (dilepton_fills L (mass L)) (reader_events rd)) \<and>
     entries_of h ''dilep_pt'' = concat (map (dilepton_fills L (pt L)) (reader_events rd))"
  using event_loop_dilep [of L setup_histograms rd h]
  by (simp add: analyze_def entries_of_setup_histograms)

theorem analyze_dilepton_fills_witness:
  "\<exists>h. analyze cartesian [Inr zjet_event] = Inr h \<and>
       entries_of h ''dilep_m'' = [(125, 2)] \<and> entries_of h ''dilep_pt'' = [(300, 2)]"
proof -
  from analyze_ok [of cartesian "[zjet_event]"] event_ok_zjet obtain h where
    h: "analyze cartesian [Inr zjet_event] = Inr h" by auto
  have ev: "reader_events [Inr zjet_event] = [zjet_event]"
    by (simp add: reader_events_def)
  have m: "dilepton_fills cartesian (mass cartesian) zjet_event = [(125, 2)]"
    by (simp add: dilepton_fills_def dilepton_selected_zjet dilepton_p4_zjet)
       (simp add: zjet_event_def cartesian_def sqrt_15625)
  have p: "dilepton_fills cartesian (pt cartesian) zjet_event = [(300, 2)]"
    by (simp add: dilepton_fills_def dilepton_selected_zjet dilepton_p4_zjet)
       (simp add: zjet_event_def cartesian_def sqrt_90000)
  from analyze_dilepton_fills [OF h] show ?thesis
    by (simp add: ev m p h)
qed

text \<open>
  C7. The dictionary \<open>analyze\<close> returns has exactly the sixteen observable names of
  \<open>setup_histograms\<close> as its keys, each once, and one pass of the loop body leaves the keys
  of the dictionary as they were: a fill neither adds nor removes a key.
\<close>

theorem analyze_keys:
  "(analyze L rd = Inr h \<longrightarrow>
      keys h =
        [''wei'', ''nlep'', ''lep_eta'', ''lep_pt'', ''dilep_m'', ''dilep_pt'', ''z_mass'', ''z_pt'',
         ''njet'', ''njet15'', ''jet_eta'', ''jet_pt'', ''jets_ht'', ''dijet_m'', ''dijet_pt'',
         ''dijet_dr''] \<and>
      distinct (keys h) \<and> length (keys h) = 16) \<and>
   (analyze_event L h0 ev = Inr h1 \<longrightarrow> keys h1 = keys h0)"
proof (intro conjI impI)
  assume "analyze L rd = Inr h"
  then have "keys h = keys setup_histograms"
    unfolding analyze_def by (rule event_loop_keys)
  then show k: "keys h =
        [''wei'', ''nlep'', ''lep_eta'', ''lep_pt'', ''dilep_m'', ''dilep_pt'', ''z_mass'', ''z_pt'',
         ''njet'', ''njet15'', ''jet_eta'', ''jet_pt'', ''jets_ht'', ''dijet_m'', ''dijet_pt'',
         ''dijet_dr'']"
    by (simp only: keys_setup_histograms)
  show "distinct (keys h)" unfolding k by simp
  show "length (keys h) = 16" unfolding k by simp
next
  assume "analyze_event L h0 ev = Inr h1"
  then show "keys h1 = keys h0" by (rule analyze_event_keys)
qed

theorem analyze_keys_witness:
  "\<exists>h h1. analyze cartesian [Inr zjet_event] = Inr h \<and>
     analyze_event cartesian setup_histograms zjet_event = Inr h1 \<and>
     keys h =
        [''wei'', ''nlep'', ''lep_eta'', ''lep_pt'', ''dilep_m'', ''dilep_pt'', ''z_mass'', ''z_pt'',
         ''njet'', ''njet15'', ''jet_eta'', ''jet_pt'', ''jets_ht'', ''dijet_m'', ''dijet_pt'',
         ''dijet_dr''] \<and>
     keys h1 = keys setup_histograms"
proof -
  from analyze_ok [of cartesian "[zjet_event]"] event_ok_zjet obtain h where
    h: "analyze cartesian [Inr zjet_event] = Inr h" by auto
  from analyze_event_ok [OF observables_present_setup event_ok_zjet] obtain h1 where
    h1: "analyze_event cartesian setup_histograms zjet_event = Inr h1" by blast
  from analyze_keys [of cartesian "[Inr zjet_event]" h setup_histograms zjet_event h1] h h1
  show ?thesis by blast
qed

text \<open>
  C9. An event that passes the dilepton selection and has no status-1 parton jet: the
  jet loop leaves \<open>j_p4\<close> at \<open>None\<close>, the body of the loop raises on it whatever the
  histograms are, and so does \<open>analyze\<close> on every input that contains the event; it is not
  skipped. When the sixteen histograms exist, the event has a weight and the lepton
  pseudorapidities exist, the exception is the \<open>AttributeError\<close> of \<open>j_p4.pt\<close>.
\<close>

theorem analyze_fails_without_jets:
  assumes "dilepton_selected L ev" and "jets ev = []"
  shows "jet_loop L wei h None (jets ev) = Inr (h, None) \<and>
    isl (analyze_event L h ev) \<and>
    (Inr ev \<in> set rd \<longrightarrow> isl (analyze L rd)) \<and>
    (observables_present h \<and> weights ev \<noteq> [] \<and>
       list_all (\<lambda>l. \<not> isl (eta L (p4 L l))) (leptons ev) \<longrightarrow>
     analyze_event L h ev = Inl AttributeError)"
proof (intro conjI impI)
  show "jet_loop L wei h None (jets ev) = Inr (h, None)"
    by (simp add: assms(2))
  show "isl (analyze_event L h ev)"
    using assms by (rule analyze_event_no_jets)
next
  assume "Inr ev \<in> set rd"
  then show "isl (analyze L rd)"
    unfolding analyze_def
    by (rule event_loop_fails) (rule analyze_event_no_jets [OF assms])
next
  assume "observables_present h \<and> weights ev \<noteq> [] \<and>
    list_all (\<lambda>l. \<not> isl (eta L (p4 L l))) (leptons ev)"
  with assms show "analyze_event L h ev = Inl AttributeError"
    by (simp add: analyze_event_no_jets_error)
qed

theorem analyze_fails_without_jets_witness:
  "dilepton_selected cartesian z_event \<and> jets z_event = [] \<and>
   analyze_event cartesian setup_histograms z_event = Inl AttributeError \<and>
   analyze cartesian [Inr zjet_event, Inr z_event] = Inl AttributeError"
proof -
  note inst = analyze_fails_without_jets [OF dilepton_selected_z jets_z, of _ _ "[Inr z_event]"]
  obtain h1 where h1: "analyze_event cartesian setup_histograms zjet_event = Inr h1"
    and p1: "observables_present h1"
    using analyze_event_ok [OF observables_present_setup event_ok_zjet] by blast
  have etas: "list_all (\<lambda>l. \<not> isl (eta cartesian (p4 cartesian l))) (leptons z_event)"
    by (simp add: leptons_z eta_mu_plus eta_mu_minus)
  have w: "weights z_event \<noteq> []"
    by (simp add: z_event_def)
  from inst [of 1 setup_histograms] observables_present_setup etas w
  have a: "analyze_event cartesian setup_histograms z_event = Inl AttributeError" by blast
  from inst [of 1 h1] p1 etas w
  have b: "analyze_event cartesian h1 z_event = Inl AttributeError" by blast
  show ?thesis
    by (simp add: dilepton_selected_z jets_z a analyze_def h1 b)
qed

section \<open>vplusjetPDFsyst.py: the claims\<close>

text \<open>
  C1, as the code has it. When \<open>process\<close> returns, then for every PDF variation index
  \<open>p\<close> from 0 to 31 the fills of \<open>dilep_pt\<close> under the category \<open>str(p)\<close> are one fill per
  fully selected event, of the event's dilepton pt, with the weight \<open>genWeight\<close> times
  twice the event's \<open>p\<close>-th PDF weight: line 189 doubles \<open>LHEPdfWeight[:, p]\<close>.
\<close>

theorem process_pdf_fills:
  assumes "process K self events = Inr out"
    and "map_of (metadata events) ''dataset'' = Some dataset"
    and "p < 32"
  shows "category_fills [dataset, str p] (out_dilep_pt out) =
      zip (concat (map (dilepton_pts K) (selected_rows K events)))
          (map (\<lambda>ev. genWeight ev * (2 * (LHEPdfWeight ev ! p))) (selected_rows K events)) \<and>
    length (concat (map (dilepton_pts K) (selected_rows K events))) =
      length (selected_rows K events)"
proof -
  from process_Inr(1) [OF assms(1,2)]
  have "out_dilep_pt out =
      hist_fill [dataset, ''Default''] (concat (map (dilepton_pts K) (selected_rows K events)))
        (map genWeight (selected_rows K events)) [] @
      concat (map (pdf_fills K dataset (selected_rows K events)) [0..<32])"
    by (simp add: process_output_def Let_def selected_rows_def)
  then show ?thesis
    by (simp add: category_fills_pdf [OF assms(3)] dilepton_pts_selected selected_rows_def)
qed

theorem process_pdf_fills_witness:
  "process ptetaphim Processor dy_chunk = Inr (process_output ptetaphim ''DY'' [dy_event]) \<and>
   map_of (metadata dy_chunk) ''dataset'' = Some ''DY'' \<and> (5::nat) < 32 \<and>
   category_fills [''DY'', str 5] (out_dilep_pt (process_output ptetaphim ''DY'' [dy_event])) =
     [(0, 6)]"
proof -
  have d: "map_of (metadata dy_chunk) ''dataset'' = Some ''DY''"
    by (simp add: dy_chunk_def)
  have w: "genWeight dy_event * (2 * (LHEPdfWeight dy_event ! 5)) = 6"
    by (simp add: dy_event_def)
  from process_pdf_fills [OF process_dy d, of 5] show ?thesis
    by (simp add: process_dy d selected_rows_dy dilepton_pts_dy w)
qed

text \<open>
  C1, as it is stated, fails: on the Drell-Yan chunk the fill under category \<open>0\<close> has
  weight 6, while \<open>genWeight\<close> times the PDF weight is 3.
\<close>

theorem process_pdf_fills_counterexample:
  "process ptetaphim Processor dy_chunk = Inr (process_output ptetaphim ''DY'' [dy_event]) \<and>
   category_fills [''DY'', str 0] (out_dilep_pt (process_output ptetaphim ''DY'' [dy_event])) =
     [(0, 6)] \<and>
   map (\<lambda>ev. genWeight ev * (LHEPdfWeight ev ! 0)) (selected_rows ptetaphim dy_chunk) = [3]"
proof -
  have w: "genWeight dy_event * (2 * (LHEPdfWeight dy_event ! 0)) = 6"
    "genWeight dy_event * (LHEPdfWeight dy_event ! 0) = 3"
    by (simp_all add: dy_event_def)
  have "category_fills [''DY'', str 0] (out_dilep_pt (process_output ptetaphim ''DY'' [dy_event])) =
     [(0, 6)]"
    by (simp add: process_output_def Let_def fully_selected_dy category_fills_pdf dilepton_pts_dy w)
  then show ?thesis
    by (simp add: process_dy selected_rows_dy w)
qed

text \<open>
  C3. The mask \<open>full_selection\<close> that \<open>process\<close> computes from the muon, electron and jet
  columns is, event by event, the predicate: exactly one pair of good muons of opposite
  charge with invariant mass in \<open>[60, 120)\<close>, and at least two clean tight jets with
  \<open>pt > 30\<close> and \<open>|eta| < 2.5\<close>. The output \<open>process\<close> returns is the one built from the events
  that satisfy it; neither the leading-muon flag of line 98 nor a window on the dilepton
  pt enters.
\<close>

theorem full_selection_rows_selected:
  "full_selection K (map Muon rs) (map Electron rs) (map Jet rs) = map (fully_selected K) rs \<and>
   (process K self events = Inr out \<longrightarrow> map_of (metadata events) ''dataset'' = Some dataset \<longrightarrow>
      out = process_output K dataset (rows events))"
  using full_selection_rows [of K rs] process_Inr(1) [of K self events out dataset]
  by blast

text \<open>
  On the Drell-Yan event, whose dilepton pt is 0, and on the event with two soft muons,
  whose leading-muon flag is \<open>False\<close>, the mask is \<open>True\<close>.
\<close>

theorem full_selection_rows_selected_witness:
  "full_selection ptetaphim [Muon dy_event] [Electron dy_event] [Jet dy_event] = [True] \<and>
   mumu_pt ptetaphim muon1 muon2 = 0 \<and>
   full_selection ptetaphim [Muon soft_event] [Electron soft_event] [Jet soft_event] = [True] \<and>
   lead_muon_pt [Muon soft_event] = [Some False] \<and>
   process ptetaphim Processor dy_chunk = Inr (process_output ptetaphim ''DY'' (rows dy_chunk))"
proof -
  have d: "map_of (metadata dy_chunk) ''dataset'' = Some ''DY''"
    by (simp add: dy_chunk_def)
  have r: "rows dy_chunk = [dy_event]"
    by (simp add: dy_chunk_def)
  from full_selection_rows_selected [of ptetaphim "[dy_event]" Processor dy_chunk
      "process_output ptetaphim ''DY'' [dy_event]" "''DY''"]
  have a: "full_selection ptetaphim [Muon dy_event] [Electron dy_event] [Jet dy_event] = [True]"
    by (simp add: fully_selected_dy)
  from full_selection_rows_selected [of ptetaphim "[soft_event]" Processor dy_chunk
      "process_output ptetaphim ''DY'' [dy_event]" "''DY''"]
  have b: "full_selection ptetaphim [Muon soft_event] [Electron soft_event] [Jet soft_event] = [True]"
    by (simp add: fully_selected_soft)
  show ?thesis
    by (simp add: a b mumu_pt_dy lead_muon_pt_soft process_dy r)
qed

text \<open>
  C10. \<open>isClean\<close> marks an object of \<open>obj_A\<close> as clean exactly when the event has no
  object of \<open>obj_B\<close> or the smallest distance to one of them exceeds \<open>drmin\<close>; when every
  event's \<open>obj_B\<close> is empty, every object is clean.
\<close>

theorem isClean_nearest:
  "isClean delta_r obj_A obj_B drmin =
     map (\<lambda>(as, bs). map (\<lambda>a. bs = [] \<or> drmin < Min (set (map (delta_r a) bs))) as)
       (zip obj_A obj_B) \<and>
   isClean delta_r obj_A (map (\<lambda>as. []) obj_A) drmin = map (map (\<lambda>a. True)) obj_A"
proof
  have "list_all (\<lambda>b. drmin < delta_r a b) bs \<longleftrightarrow>
      bs = [] \<or> drmin < Min (set (map (delta_r a) bs))" for a and bs :: "'b list"
  proof (cases bs)
    case Nil
    then show ?thesis by simp
  next
    case (Cons b bs')
    then have "drmin < Min (set (map (delta_r a) bs)) \<longleftrightarrow> (\<forall>x\<in>set (map (delta_r a) bs). drmin < x)"
      by (intro Min_gr_iff) simp_all
    with Cons show ?thesis by (simp add: list_all_iff)
  qed
  then show "isClean delta_r obj_A obj_B drmin =
     map (\<lambda>(as, bs). map (\<lambda>a. bs = [] \<or> drmin < Min (set (map (delta_r a) bs))) as)
       (zip obj_A obj_B)"
    unfolding isClean_rows by simp
  show "isClean delta_r obj_A (map (\<lambda>as. []) obj_A) drmin = map (map (\<lambda>a. True)) obj_A"
    unfolding isClean_rows by (simp add: zip_map2 zip_same_conv_map)
qed

theorem isClean_nearest_witness:
  "isClean (\<lambda>a b. \<bar>a - b\<bar>) [[0, 1], [5]] [[0.3, 2], []] 0.4 = [[False, True], [True]] \<and>
   isClean (\<lambda>a b. \<bar>a - b\<bar>) [[0, 1], [5]] [[], []] 0.4 = [[True, True], [True]]"
  using isClean_nearest [of "\<lambda>a b. \<bar>a - b\<bar>" "[[0, 1], [5]]" "[[0.3, 2], []]" "0.4"]
    isClean_nearest [of "\<lambda>a b. \<bar>a - b\<bar>" "[[0, 1], [5]]" "[[], []]" "0.4"]
  by simp

text \<open>
  C8. There is no handler in either function. In \<open>analyze\<close>, when the events before an
  item were processed and the reader raises on the item, or the body of the loop raises on
  its event, \<open>analyze\<close> raises that exception and returns no histograms. In \<open>process\<close>, the
  exception of the first access that raises is the outcome, and so is the exception of
  \<open>LHEPdfWeight[:, p]\<close> on a selected event with fewer than thirty-two PDF weights.
\<close>

theorem exceptions_propagate:
  "(event_loop L setup_histograms pre = Inr h1 \<and>
      (item = Inl e \<or> (\<exists>ev. item = Inr ev \<and> analyze_event L h1 ev = Inl e)) \<longrightarrow>
    analyze L (pre @ item # post) = Inl e) \<and>
   (first_failure events = Some e \<longrightarrow> process K self events = Inl e) \<and>
   (first_failure events = None \<and>
      \<not> list_all (\<lambda>ev. 32 \<le> length (LHEPdfWeight ev)) (selected_rows K events) \<longrightarrow>
    process K self events = Inl (LibraryError ''index out of range''))"
proof (intro conjI impI)
  assume "event_loop L setup_histograms pre = Inr h1 \<and>
      (item = Inl e \<or> (\<exists>ev. item = Inr ev \<and> analyze_event L h1 ev = Inl e))"
  then show "analyze L (pre @ item # post) = Inl e"
    by (auto simp: analyze_def event_loop_append)
next
  assume "first_failure events = Some e"
  then show "process K self events = Inl e"
    by (rule process_unreadable)
next
  assume a: "first_failure events = None \<and>
      \<not> list_all (\<lambda>ev. 32 \<le> length (LHEPdfWeight ev)) (selected_rows K events)"
  then obtain d where d: "map_of (metadata events) ''dataset'' = Some d"
    using first_failure_None(1) by blast
  from a have r: "list_all (\<lambda>n. map_of (unreadable events) n = None) accesses"
    using first_failure_None(2) by blast
  from a show "process K self events = Inl (LibraryError ''index out of range'')"
    by (simp add: process_readable [OF d r] pdf_ok_iff)
qed

theorem exceptions_propagate_witness:
  "analyze cartesian [Inr zjet_event, Inl (LibraryError ''not well-formed''), Inr zjet_event] =
     Inl (LibraryError ''not well-formed'') \<and>
   analyze cartesian [Inr zjet_event, Inr z_event, Inr zjet_event] = Inl AttributeError \<and>
   process ptetaphim Processor broken_chunk = Inl AttributeError \<and>
   process ptetaphim Processor short_pdf_chunk = Inl (LibraryError ''index out of range'')"
proof -
  obtain h1 where h1: "analyze_event cartesian setup_histograms zjet_event = Inr h1"
    and p1: "observables_present h1"
    using analyze_event_ok [OF observables_present_setup event_ok_zjet] by blast
  then have pre: "event_loop cartesian setup_histograms [Inr zjet_event] = Inr h1"
    by simp
  have etas: "list_all (\<lambda>l. \<not> isl (eta cartesian (p4 cartesian l))) (leptons z_event)"
    by (simp add: leptons_z eta_mu_plus eta_mu_minus)
  have b: "analyze_event cartesian h1 z_event = Inl AttributeError"
    by (rule analyze_event_no_jets_error [OF dilepton_selected_z jets_z p1 _ etas])
       (simp add: z_event_def)
  have ff: "first_failure broken_chunk = Some AttributeError"
    by (simp add: first_failure_def broken_chunk_def accesses_def)
  have ff2: "first_failure short_pdf_chunk = None"
    by (simp add: first_failure_def short_pdf_chunk_def accesses_def)
  have fs: "fully_selected ptetaphim (dy_event\<lparr>LHEPdfWeight := replicate 9 1\<rparr>)"
    using fully_selected_dy
    by (simp add: fully_selected_def dimuon_pairs_def clean_tight_jets_def good_muons_def
        good_electrons_def)
  have sp: "\<not> list_all (\<lambda>ev. 32 \<le> length (LHEPdfWeight ev)) (selected_rows ptetaphim short_pdf_chunk)"
    by (simp add: selected_rows_def short_pdf_chunk_def fs)
  note inst = exceptions_propagate [of cartesian "[Inr zjet_event]" h1 _ _ "[Inr zjet_event]"]
  from inst [of "Inl (LibraryError ''not well-formed'')" "LibraryError ''not well-formed''"
      broken_chunk ptetaphim Processor] pre
  have 1: "analyze cartesian [Inr zjet_event, Inl (LibraryError ''not well-formed''), Inr zjet_event] =
     Inl (LibraryError ''not well-formed'')"
    by simp
  from inst [of "Inr z_event" AttributeError broken_chunk ptetaphim Processor] pre b ff
  have 2: "analyze cartesian [Inr zjet_event, Inr z_event, Inr zjet_event] = Inl AttributeError"
    and 3: "process ptetaphim Processor broken_chunk = Inl AttributeError"
    by simp_all
  from inst [of "Inr z_event" AttributeError short_pdf_chunk ptetaphim Processor] ff2 sp
  have 4: "process ptetaphim Processor short_pdf_chunk = Inl (LibraryError ''index out of range'')"
    by simp
  from 1 2 3 4 show ?thesis by simp
qed



section \<open>The plots and the command line: the claims\<close>

text \<open>
  C4. In both scripts, \<open>plot\<close> called on a collection writes one image per observable
  (in \<open>vplusjetPDFsyst.py\<close>: per entry that is a \<open>Hist\<close>) and then \<open>Pickles.pkl\<close>, all
  under the output directory; the pickle file then holds the collection, and when the names of
  the collection are distinct every image file holds the drawing of its histogram.
  \<open>plotFromPickles\<close> on that pickle file returns, reads the file once, and writes the same
  image paths again and nothing else: the file system after it differs from the one before
  only in the two logs, so the images are the same and \<open>Pickles.pkl\<close> is not written
  again.
\<close>

theorem plot_roundtrip:
  "(let outdir = lhe_outdir opt;
        fs1 = lhe_plot plot opt h False fs
    in writes fs1 = writes fs @ map (png_path outdir) (keys h) @ [pkl_path outdir] \<and>
       files fs1 = (files fs ++ image_files (lhe_images plot outdir h))(pkl_path outdir \<mapsto> Pkl h) \<and>
       (distinct (keys h) \<longrightarrow>
          list_all (\<lambda>(observable, histogram).
             files fs1 (png_path outdir observable) = Some (Png (plot histogram))) h) \<and>
       lhe_plotFromPickles plot opt (pkl_path outdir) fs1 =
         Inr (fs1\<lparr>writes := writes fs1 @ map (png_path outdir) (keys h),
                  reads := reads fs1 @ [pkl_path outdir]\<rparr>)) \<and>
   (let fs1 = vpj_plot P c outdir' False fs';
        hists = filter (\<lambda>(observable, histogram). is_Hist P histogram) c
    in writes fs1 = writes fs' @ map (png_path outdir') (map fst hists) @ [pkl_path outdir'] \<and>
       files fs1 = (files fs' ++ image_files (vpj_images P outdir' c))(pkl_path outdir' \<mapsto> Pkl c) \<and>
       (distinct (map fst c) \<longrightarrow>
          list_all (\<lambda>(observable, histogram).
             files fs1 (png_path outdir' observable) =
               Some (Png (if observable = ''dilep_pt'' then plotgrid P histogram
                          else plot1d P histogram))) hists) \<and>
       vpj_plotFromPickles P (pkl_path outdir') outdir' fs1 =
         Inr (fs1\<lparr>writes := writes fs1 @ map (png_path outdir') (map fst hists),
                  reads := reads fs1 @ [pkl_path outdir']\<rparr>))"
proof -
  note core = plot_roundtrip_core [of opt plot h fs P c outdir' fs', unfolded Let_def]
  have a: "list_all (\<lambda>(observable, histogram).
             files (lhe_plot plot opt h False fs) (png_path (lhe_outdir opt) observable) =
               Some (Png (plot histogram))) h"
    if "distinct (keys h)"
    using core that
    by (auto simp: list_all_iff map_add_def png_path_not_pkl lhe_image_content)
  have b: "list_all (\<lambda>(observable, histogram).
             files (vpj_plot P c outdir' False fs') (png_path outdir' observable) =
               Some (Png (if observable = ''dilep_pt'' then plotgrid P histogram
                          else plot1d P histogram)))
          (filter (\<lambda>(observable, histogram). is_Hist P histogram) c)"
    if "distinct (map fst c)"
    using core that
    by (auto simp: list_all_iff map_add_def png_path_not_pkl vpj_image_content)
  from core a b show ?thesis
    unfolding Let_def by blast
qed

theorem plot_roundtrip_witness:
  "writes (lhe_plot (\<lambda>hg. length (entries hg)) plots_opt one_histogram False empty_fs) =
     [''plots/nlep.png'', ''plots/Pickles.pkl''] \<and>
   files (lhe_plot (\<lambda>hg. length (entries hg)) plots_opt one_histogram False empty_fs) ''plots/nlep.png'' =
     Some (Png 1) \<and>
   files (lhe_plot (\<lambda>hg. length (entries hg)) plots_opt one_histogram False empty_fs)
     ''plots/Pickles.pkl'' = Some (Pkl one_histogram) \<and>
   lhe_plotFromPickles (\<lambda>hg. length (entries hg)) plots_opt ''plots/Pickles.pkl''
     (lhe_plot (\<lambda>hg. length (entries hg)) plots_opt one_histogram False empty_fs) =
     Inr ((lhe_plot (\<lambda>hg. length (entries hg)) plots_opt one_histogram False empty_fs)
            \<lparr>writes := [''plots/nlep.png'', ''plots/Pickles.pkl'', ''plots/nlep.png''],
             reads := [''plots/Pickles.pkl'']\<rparr>) \<and>
   writes (vpj_plot no_plots [(''dilep_pt'', ())] ''plots'' False empty_fs) =
     [''plots/dilep_pt.png'', ''plots/Pickles.pkl''] \<and>
   files (vpj_plot no_plots [(''dilep_pt'', ())] ''plots'' False empty_fs) ''plots/dilep_pt.png'' =
     Some (Png ()) \<and>
   vpj_plotFromPickles no_plots ''plots/Pickles.pkl'' ''plots''
     (vpj_plot no_plots [(''dilep_pt'', ())] ''plots'' False empty_fs) =
     Inr ((vpj_plot no_plots [(''dilep_pt'', ())] ''plots'' False empty_fs)
            \<lparr>writes := [''plots/dilep_pt.png'', ''plots/Pickles.pkl'', ''plots/dilep_pt.png''],
             reads := [''plots/Pickles.pkl'']\<rparr>)"
proof -
  have d: "distinct (keys one_histogram)"
    by (simp add: keys_def one_histogram_def)
  have r: "reads (lhe_plot (\<lambda>hg. length (entries hg)) plots_opt one_histogram False empty_fs) = []"
    by (simp add: lhe_plot_logs empty_fs_def)
  have vr: "reads (vpj_plot no_plots [(''dilep_pt'', ())] ''plots'' False empty_fs) = []"
    by (simp add: vpj_plot_logs empty_fs_def)
  note both = plot_roundtrip [of plots_opt "\<lambda>hg. length (entries hg)" one_histogram empty_fs
      no_plots "[(''dilep_pt'', ())]" "''plots''" empty_fs, unfolded Let_def]
  note l = both [THEN conjunct1]
  note v = both [THEN conjunct2]
  note vw = v [THEN conjunct1]
  note vi = v [THEN conjunct2, THEN conjunct2, THEN conjunct1]
  note vp = v [THEN conjunct2, THEN conjunct2, THEN conjunct2]
  have hh: "filter (\<lambda>(observable, histogram). is_Hist no_plots histogram) [(''dilep_pt'', ())] =
      [(''dilep_pt'', ())]"
    and vv: "pkl_path ''plots'' = ''plots/Pickles.pkl''"
      "png_path ''plots'' ''dilep_pt'' = ''plots/dilep_pt.png''"
    by (simp_all add: no_plots_def png_path_def pkl_path_def)
  have vw': "writes (vpj_plot no_plots [(''dilep_pt'', ())] ''plots'' False empty_fs) =
      [''plots/dilep_pt.png'', ''plots/Pickles.pkl'']"
    using vw unfolding hh by (simp add: vv empty_fs_def)
  have vi': "files (vpj_plot no_plots [(''dilep_pt'', ())] ''plots'' False empty_fs)
      ''plots/dilep_pt.png'' = Some (Png ())"
    using vi unfolding hh by (simp add: vv)
  have vp': "vpj_plotFromPickles no_plots ''plots/Pickles.pkl'' ''plots''
     (vpj_plot no_plots [(''dilep_pt'', ())] ''plots'' False empty_fs) =
     Inr ((vpj_plot no_plots [(''dilep_pt'', ())] ''plots'' False empty_fs)
            \<lparr>writes := [''plots/dilep_pt.png'', ''plots/Pickles.pkl'', ''plots/dilep_pt.png''],
             reads := [''plots/Pickles.pkl'']\<rparr>)"
    using vp unfolding hh vr vw' by (simp add: vv)
  note w = l [THEN conjunct1]
  note f = l [THEN conjunct2, THEN conjunct1]
  note i = l [THEN conjunct2, THEN conjunct2, THEN conjunct1, THEN mp, OF d]
  note p = l [THEN conjunct2, THEN conjunct2, THEN conjunct2]
  have pp: "pkl_path (lhe_outdir plots_opt) = ''plots/Pickles.pkl''"
    and kk: "map (png_path (lhe_outdir plots_opt)) (keys one_histogram) = [''plots/nlep.png'']"
    by (simp_all add: plots_opt_def keys_def one_histogram_def png_path_def pkl_path_def)
  have w': "writes (lhe_plot (\<lambda>hg. length (entries hg)) plots_opt one_histogram False empty_fs) =
      [''plots/nlep.png'', ''plots/Pickles.pkl'']"
    using w by (simp add: plots_opt_def keys_def one_histogram_def png_path_def pkl_path_def empty_fs_def)
  have "files (lhe_plot (\<lambda>hg. length (entries hg)) plots_opt one_histogram False empty_fs)
      ''plots/nlep.png'' = Some (Png 1)"
    using i by (simp add: plots_opt_def one_histogram_def png_path_def)
  moreover have "files (lhe_plot (\<lambda>hg. length (entries hg)) plots_opt one_histogram False empty_fs)
      ''plots/Pickles.pkl'' = Some (Pkl one_histogram)"
    by (simp add: f) (simp add: plots_opt_def pkl_path_def)
  moreover have "lhe_plotFromPickles (\<lambda>hg. length (entries hg)) plots_opt ''plots/Pickles.pkl''
     (lhe_plot (\<lambda>hg. length (entries hg)) plots_opt one_histogram False empty_fs) =
     Inr ((lhe_plot (\<lambda>hg. length (entries hg)) plots_opt one_histogram False empty_fs)
            \<lparr>writes := [''plots/nlep.png'', ''plots/Pickles.pkl'', ''plots/nlep.png''],
             reads := [''plots/Pickles.pkl'']\<rparr>)"
    using p unfolding pp kk r w' by simp
  ultimately show ?thesis
    using w' vw' vi' vp'
    by (simp only: simp_thms)
qed




end
